theory Spec2Isabelle
  imports Complex_Main "HOL-Library.Word"
begin

section \<open>The cstore table access method (cstore\_tableam.c)\<close>

text \<open>
  A shallow embedding of \<^verbatim>\<open>src/cstore_tableam.c\<close>, the adapter that maps
  PostgreSQL's table access method callbacks onto the columnar storage engine.
  The adapter's functions are translated from the C source. The engine it calls
  (\<^verbatim>\<open>CStoreBeginWrite\<close>, \<^verbatim>\<open>CStoreWriteRow\<close>, \<^verbatim>\<open>CStoreEndWrite\<close>,
  \<^verbatim>\<open>CStoreBeginRead\<close>, \<^verbatim>\<open>CStoreReadNextRow\<close>, the metadata catalog) is declared in
  \<^verbatim>\<open>cstore.h\<close> and implemented in files that are not part of the sources at hand;
  those definitions are modelled from the specification and marked as such.

  Conventions.
  \<^item> A C function that reads or writes global state takes the state and returns a pair:
    the outcome (\<open>Inl\<close> an error, \<open>Inr\<close> the returned value) and the state at the
    point where the function returned or raised. \<^verbatim>\<open>elog(ERROR, ...)\<close> does not
    return to its caller, so every caller passes an \<open>Inl\<close> on unchanged.
  \<^item> \<^verbatim>\<open>Assert(c)\<close> is compiled only into assertion-enabled builds; the functions that
    contain one take the build flag \<open>USE_ASSERT_CHECKING\<close> as their first argument.
  \<^item> Memory contexts (\<^verbatim>\<open>MemoryContextSwitchTo\<close>, \<^verbatim>\<open>palloc\<close>), log messages at level
    \<^verbatim>\<open>LOG\<close> and relation locks have no effect on the values computed and are left out.
  \<^item> An object reached through a pointer and updated in place (the write state behind
    \<^verbatim>\<open>CStoreWriteState\<close>, a tuple slot, a scan descriptor) is passed in and returned
    updated; the caller stores it back where the pointer lives.
\<close>

subsection \<open>Host types\<close>

type_synonym Oid = "32 word"

definition InvalidOid :: Oid where
  "InvalidOid = 0"

text \<open>The macro \<^verbatim>\<open>OidIsValid(objectId)\<close> is \<^verbatim>\<open>((bool) ((objectId) != InvalidOid))\<close>;
  the source applies it to an \<^verbatim>\<open>Oid\<close> and to an \<^verbatim>\<open>int\<close>.\<close>

definition OidIsValid :: "'a::zero \<Rightarrow> bool" where
  "OidIsValid objectId = (objectId \<noteq> 0)"

text \<open>A datum is either stored inline or is a pointer to an externally stored (TOASTed)
  value.\<close>

datatype Datum = Plain nat | External nat

datatype error =
    ElogError string
  | AssertFailure
  | NullPointer
  | OutOfBounds
  | CodecError
  | SchemaMismatchError
  | IOError
  | NotFoundError

record FormData_pg_attribute =
  atttypid :: Oid
  attisdropped :: bool

text \<open>A tuple descriptor is the array \<^verbatim>\<open>attrs\<close> with its length \<^verbatim>\<open>natts\<close>.\<close>

record TupleDescData =
  attrs :: "FormData_pg_attribute list"

definition natts :: "TupleDescData \<Rightarrow> nat" where
  "natts tupdesc = length (attrs tupdesc)"

datatype TableAmRoutine = cstore_am_methods | heapam_methods | other_am_methods nat

definition GetCstoreTableAmRoutine :: TableAmRoutine where
  "GetCstoreTableAmRoutine = cstore_am_methods"

record RelFileNode =
  relNode :: Oid

record RelationData =
  rd_id :: Oid
  rd_node :: RelFileNode
  rd_att :: TupleDescData
  rd_tableam :: TableAmRoutine

definition RelationGetDescr :: "RelationData \<Rightarrow> TupleDescData" where
  "RelationGetDescr relation = rd_att relation"

record TupleTableSlot =
  tts_empty :: bool
  tts_values :: "Datum list"
  tts_isnull :: "bool list"
  tts_tupleDescriptor :: TupleDescData

type_synonym Row = "Datum list \<times> bool list"

text \<open>\<^verbatim>\<open>AttrNumber\<close> is a signed 16-bit integer and \<^verbatim>\<open>int32\<close> a signed 32-bit one: words
  read with \<open>sint\<close>. \<^verbatim>\<open>Index\<close> is an unsigned 32-bit integer.\<close>

record Var =
  varno :: "32 word"
  varattno :: "16 word"
  vartype :: Oid
  vartypmod :: "32 word"
  varcollid :: Oid
  varlevelsup :: "32 word"

definition makeVar :: "32 word \<Rightarrow> 16 word \<Rightarrow> Oid \<Rightarrow> 32 word \<Rightarrow> Oid \<Rightarrow> 32 word \<Rightarrow> Var" where
  "makeVar vno vattno vtype vtypmod vcollid vlevelsup =
     \<lparr>varno = vno, varattno = vattno, vartype = vtype, vartypmod = vtypmod,
      varcollid = vcollid, varlevelsup = vlevelsup\<rparr>"

datatype Node = Node nat

subsection \<open>Engine data (cstore.h)\<close>

text \<open>Modelled from the spec: the compression kinds (\<^verbatim>\<open>cstore.h\<close> is missing). Section 4.1:
  the codec is chosen per relation; one codec is the identity.\<close>

datatype CompressionType = COMPRESSION_NONE | COMPRESSION_PG_LZ

text \<open>Modelled from the spec: the options record (\<^verbatim>\<open>cstore.h\<close> is missing); its three
  fields are the ones \<^verbatim>\<open>CStoreTableAMGetOptions\<close> assigns. Section 3: the compression kind and
  the two row-count thresholds, which are counts.\<close>

record CStoreOptions =
  compressionType :: CompressionType
  stripeRowCount :: nat
  blockRowCount :: nat

text \<open>The structures of \<^verbatim>\<open>cstore.h\<close> are not in the sources. The source reads the three
  fields of \<^verbatim>\<open>CStoreOptions\<close>, \<^verbatim>\<open>blockRowCount\<close> of the file metadata and \<^verbatim>\<open>relation\<close>
  of the write state; everything else follows section 3 of the specification. A byte
  string is modelled as the list of the values it serialises and a file offset as the
  position of the stripe in the data region.\<close>

text \<open>Modelled from the spec: the column block (\<^verbatim>\<open>cstore.h\<close> is missing). Section 3: row count,
  value-existence indicator, encoded values; section 4.1: the codec chosen is recorded in the
  block.\<close>

record ColumnBlock =
  cb_rowCount :: nat
  cb_exists :: "bool list"
  cb_compressionType :: CompressionType
  cb_payload :: "Datum list"

text \<open>Modelled from the spec: the blocks of one row range of a stripe, one per column (\<^verbatim>\<open>cstore.h\<close> is
  missing). Section 3: all blocks of a row range cover the same rows.\<close>

record StripeBlock =
  sb_rowCount :: nat
  sb_columns :: "ColumnBlock list"

type_synonym StripeData = "StripeBlock list"

text \<open>Modelled from the spec: the stripe descriptor (\<^verbatim>\<open>cstore.h\<close> is missing). Sections 3 and 4.3: file
  offset and row count.\<close>

record StripeMetadata =
  fileOffset :: nat
  rowCount :: nat

text \<open>Modelled from the spec: the catalog entry of a relation (\<^verbatim>\<open>cstore.h\<close> is missing). Section 6:
  the block row count and the ordered list of stripe descriptors.\<close>

record DataFileMetadata =
  blockRowCount :: nat
  stripeMetadataList :: "StripeMetadata list"

text \<open>Modelled from the spec: the write state (\<^verbatim>\<open>cstore.h\<close> is missing; the source reads its field
  \<^verbatim>\<open>relation\<close>). Section 4.4: the thresholds, the schema, the stripe under construction and the
  row buffer.\<close>

record TableWriteState =
  relation :: RelationData
  ws_compressionType :: CompressionType
  ws_stripeMaxRowCount :: nat
  ws_blockRowCount :: nat
  ws_tupleDescriptor :: TupleDescData
  ws_stripeBlocks :: "StripeBlock list"
  ws_blockBuffer :: "Row list"

text \<open>Modelled from the spec: the read state (\<^verbatim>\<open>cstore.h\<close> is missing). Section 4.6: the relation,
  the schema, the requested columns, the stripes still to read, the blocks of the current
  stripe still to decode and the decoded rows still to yield; the qualification list is the
  fourth argument the source passes to \<^verbatim>\<open>CStoreBeginRead\<close>.\<close>

record TableReadState =
  rs_relation :: RelationData
  rs_tupleDescriptor :: TupleDescData
  projectedColumnList :: "Var list"
  whereClauseList :: "Node list"
  rs_stripeList :: "StripeMetadata list"
  rs_stripeBlocks :: "StripeBlock list"
  rs_blockRows :: "Row list"

subsection \<open>The state\<close>

text \<open>The file's static \<^verbatim>\<open>CStoreWriteState\<close>, the three configuration variables read by
  \<^verbatim>\<open>CStoreTableAMGetOptions\<close>, the metadata catalog and the data region (both keyed by
  relfilenode), and what the adapter reads from the host: the relation cache, the
  storage manager's block counts, the TOAST store, the compression library and two
  transaction horizons.\<close>

record cstore_state =
  CStoreWriteState :: "TableWriteState option"
  cstore_compression :: CompressionType
  cstore_stripe_row_count :: nat
  cstore_block_row_count :: nat
  catalog :: "Oid \<rightharpoonup> DataFileMetadata"
  storage :: "Oid \<rightharpoonup> StripeData list"
  relcache :: "Oid \<rightharpoonup> RelationData"
  smgrnblocks_main :: "Oid \<Rightarrow> 32 word"
  toast_store :: "nat \<Rightarrow> nat"
  pglz_compress :: "Datum list \<Rightarrow> Datum list"
  pglz_decompress :: "Datum list \<Rightarrow> nat \<Rightarrow> Datum list option"
  RecentXmin :: "32 word"
  OldestMultiXactId :: "32 word"

type_synonym 'a result = "(error + 'a) \<times> cstore_state"

subsection \<open>Host functions on tuples and slots\<close>

text \<open>PostgreSQL's own functions, as far as the adapter uses them. A heap tuple formed
  from a slot holds a value for each non-null attribute; it has the flag
  \<^verbatim>\<open>HEAP_HASEXTERNAL\<close> when one of them is stored externally;
  \<^verbatim>\<open>toast_flatten_tuple\<close> fetches every external value; storing a heap tuple into a
  slot and fetching all attributes deforms it into the slot's two arrays, a null
  attribute getting the datum 0.\<close>

type_synonym HeapTuple = "Datum option list"

definition ExecCopySlotHeapTuple :: "TupleTableSlot \<Rightarrow> HeapTuple" where
  "ExecCopySlotHeapTuple slot =
     map (\<lambda>(v, isnull). if isnull then None else Some v) (zip (tts_values slot) (tts_isnull slot))"

fun is_external :: "Datum option \<Rightarrow> bool" where
  "is_external (Some (External p)) = True"
| "is_external _ = False"

definition HeapTupleHasExternal :: "HeapTuple \<Rightarrow> bool" where
  "HeapTupleHasExternal tuple = list_ex is_external tuple"

fun detoast_external_attr :: "(nat \<Rightarrow> nat) \<Rightarrow> Datum \<Rightarrow> Datum" where
  "detoast_external_attr toast (External p) = Plain (toast p)"
| "detoast_external_attr toast (Plain v) = Plain v"

definition toast_flatten_tuple :: "(nat \<Rightarrow> nat) \<Rightarrow> HeapTuple \<Rightarrow> TupleDescData \<Rightarrow> HeapTuple" where
  "toast_flatten_tuple toast tuple tupdesc = map (map_option (detoast_external_attr toast)) tuple"

fun deformed_datum :: "Datum option \<Rightarrow> Datum" where
  "deformed_datum None = Plain 0"
| "deformed_datum (Some v) = v"

definition ExecForceStoreHeapTuple :: "HeapTuple \<Rightarrow> TupleTableSlot \<Rightarrow> bool \<Rightarrow> TupleTableSlot" where
  "ExecForceStoreHeapTuple tuple slot shouldFree =
     slot\<lparr>tts_empty := False, tts_values := map deformed_datum tuple,
          tts_isnull := map (\<lambda>d. d = None) tuple\<rparr>"

definition slot_getallattrs :: "TupleTableSlot \<Rightarrow> TupleTableSlot" where
  "slot_getallattrs slot = slot"

definition ExecClearTuple :: "TupleTableSlot \<Rightarrow> TupleTableSlot" where
  "ExecClearTuple slot = slot\<lparr>tts_empty := True\<rparr>"

definition ExecStoreVirtualTuple :: "TupleTableSlot \<Rightarrow> TupleTableSlot" where
  "ExecStoreVirtualTuple slot = slot\<lparr>tts_empty := False\<rparr>"

definition relation_open :: "Oid \<Rightarrow> cstore_state \<Rightarrow> RelationData result" where
  "relation_open relationId s =
     (case relcache s relationId of
        None \<Rightarrow> (Inl (ElogError ''could not open relation''), s)
      | Some rel \<Rightarrow> (Inr rel, s))"

definition table_open :: "Oid \<Rightarrow> cstore_state \<Rightarrow> RelationData result" where
  "table_open relationId s = relation_open relationId s"

subsection \<open>The metadata catalog\<close>

text \<open>Modelled from the spec: \<^verbatim>\<open>ReadDataFileMetadata\<close> is not in the sources. Section 4.5:
  \<open>read\<close> gives the layout or its absence; with \<^verbatim>\<open>missingOk\<close> false an absent entry is the
  \<open>NotFoundError\<close> of section 7.\<close>

definition ReadDataFileMetadata :: "Oid \<Rightarrow> bool \<Rightarrow> cstore_state \<Rightarrow> DataFileMetadata option result" where
  "ReadDataFileMetadata relfilenode missingOk s =
     (case catalog s relfilenode of
        None \<Rightarrow> if missingOk then (Inr None, s) else (Inl NotFoundError, s)
      | Some metadata \<Rightarrow> (Inr (Some metadata), s))"

text \<open>Modelled from the spec: \<^verbatim>\<open>DeleteDataFileMetadataRowIfExists\<close> is not in the sources.
  Section 4.5: \<open>delete\<close> removes the entry of the relation.\<close>

definition DeleteDataFileMetadataRowIfExists :: "Oid \<Rightarrow> cstore_state \<Rightarrow> cstore_state" where
  "DeleteDataFileMetadataRowIfExists relfilenode s = s\<lparr>catalog := (catalog s)(relfilenode := None)\<rparr>"

text \<open>Modelled from the spec: \<^verbatim>\<open>InitCStoreDataFileMetadata\<close> is not in the sources. Section
  4.5: \<open>initialize\<close> on an existing entry replaces the stripe list and keeps the block row count
  chosen before; otherwise it creates the entry with the given block row count.\<close>

definition InitCStoreDataFileMetadata :: "Oid \<Rightarrow> nat \<Rightarrow> cstore_state \<Rightarrow> cstore_state" where
  "InitCStoreDataFileMetadata relfilenode blockRows s =
     s\<lparr>catalog := (catalog s)(relfilenode \<mapsto>
          (case catalog s relfilenode of
             None \<Rightarrow> \<lparr>blockRowCount = blockRows, stripeMetadataList = []\<rparr>
           | Some metadata \<Rightarrow> metadata\<lparr>stripeMetadataList := []\<rparr>))\<rparr>"

text \<open>Modelled from the spec: \<^verbatim>\<open>CStoreTableRowCount\<close> is not in the sources. Section 6: the row
  count is the sum of the stripes' row counts in the catalog; section 7: a relation without
  metadata is a \<open>NotFoundError\<close>.\<close>

definition CStoreTableRowCount :: "RelationData \<Rightarrow> cstore_state \<Rightarrow> nat result" where
  "CStoreTableRowCount rel s =
     (case catalog s (relNode (rd_node rel)) of
        None \<Rightarrow> (Inl NotFoundError, s)
      | Some metadata \<Rightarrow> (Inr (sum_list (map rowCount (stripeMetadataList metadata))), s))"

subsection \<open>The write path of the engine\<close>

text \<open>Modelled from the spec: the codec layer is not in the sources. Section 4.1: \<open>encode\<close>; the
  identity codec stores the raw values, the other codec is the host's compression library.\<close>

definition codec_encode :: "(Datum list \<Rightarrow> Datum list) \<Rightarrow> CompressionType \<Rightarrow> Datum list \<Rightarrow> Datum list" where
  "codec_encode cz kind raw = (case kind of COMPRESSION_NONE \<Rightarrow> raw | COMPRESSION_PG_LZ \<Rightarrow> cz raw)"

text \<open>Modelled from the spec: the codec layer is not in the sources. Section 4.1: \<open>decode\<close> with the
  expected length; a truncated input or a length that does not match is a \<open>CodecError\<close>.\<close>

definition codec_decode ::
  "(Datum list \<Rightarrow> nat \<Rightarrow> Datum list option) \<Rightarrow> CompressionType \<Rightarrow> Datum list \<Rightarrow> nat \<Rightarrow> error + Datum list" where
  "codec_decode dz kind payload expected =
     (case (case kind of COMPRESSION_NONE \<Rightarrow> Some payload | COMPRESSION_PG_LZ \<Rightarrow> dz payload expected) of
        None \<Rightarrow> Inl CodecError
      | Some raw \<Rightarrow> if length raw = expected then Inr raw else Inl CodecError)"

text \<open>Modelled from the spec: the block encoder is not in the sources. Section 4.2: the null bitmap,
  then the non-null values through the codec; a block without a non-null value has an empty
  payload.\<close>

definition EncodeColumnBlock ::
  "(Datum list \<Rightarrow> Datum list) \<Rightarrow> CompressionType \<Rightarrow> (Datum \<times> bool) list \<Rightarrow> ColumnBlock" where
  "EncodeColumnBlock cz kind cells =
     \<lparr>cb_rowCount = length cells,
      cb_exists = map (\<lambda>c. \<not> snd c) cells,
      cb_compressionType = kind,
      cb_payload = codec_encode cz kind (map fst (filter (\<lambda>c. \<not> snd c) cells))\<rparr>"

text \<open>Modelled from the spec: the values and null flags of one column of the buffered rows (section
  4.3: per-column buffers).\<close>

definition column_cells :: "nat \<Rightarrow> Row list \<Rightarrow> (Datum \<times> bool) list" where
  "column_cells c rows = map (\<lambda>r. (fst r ! c, snd r ! c)) rows"

text \<open>Modelled from the spec: the stripe builder is not in the sources. Section 4.3: one block per
  column for the buffered rows.\<close>

definition EncodeBlock ::
  "(Datum list \<Rightarrow> Datum list) \<Rightarrow> CompressionType \<Rightarrow> nat \<Rightarrow> Row list \<Rightarrow> StripeBlock" where
  "EncodeBlock cz kind columnCount rows =
     \<lparr>sb_rowCount = length rows,
      sb_columns = map (\<lambda>c. EncodeColumnBlock cz kind (column_cells c rows)) [0..<columnCount]\<rparr>"

text \<open>Modelled from the spec: the number of rows of the stripe under construction (section 4.3).\<close>

definition StripeRowCount :: "TableWriteState \<Rightarrow> nat" where
  "StripeRowCount ws = sum_list (map sb_rowCount (ws_stripeBlocks ws)) + length (ws_blockBuffer ws)"

text \<open>Modelled from the spec: the stripe builder is not in the sources. Section 4.3: the buffered
  rows are encoded, one block per column, and appended to the stripe being built.\<close>

definition FlushBlock :: "(Datum list \<Rightarrow> Datum list) \<Rightarrow> TableWriteState \<Rightarrow> TableWriteState" where
  "FlushBlock cz ws =
     ws\<lparr>ws_stripeBlocks := ws_stripeBlocks ws @
           [EncodeBlock cz (ws_compressionType ws) (natts (ws_tupleDescriptor ws)) (ws_blockBuffer ws)],
        ws_blockBuffer := []\<rparr>"

text \<open>Modelled from the spec: the stripe builder is not in the sources. Section 4.3, finalisation:
  the partial block is flushed, the stripe's blocks are written to the data region, then the
  descriptor is appended to the catalog entry. A relation without a data region is an
  \<open>IOError\<close>, one without a catalog entry a \<open>NotFoundError\<close>.\<close>

definition FlushStripe :: "TableWriteState \<Rightarrow> cstore_state \<Rightarrow> TableWriteState result" where
  "FlushStripe ws s =
     (let ws1 = (if ws_blockBuffer ws \<noteq> [] then FlushBlock (pglz_compress s) ws else ws);
          relfilenode = relNode (rd_node (relation ws1))
      in case storage s relfilenode of
           None \<Rightarrow> (Inl IOError, s)
         | Some file \<Rightarrow>
             (let s1 = s\<lparr>storage := (storage s)(relfilenode \<mapsto> file @ [ws_stripeBlocks ws1])\<rparr>
              in case catalog s1 relfilenode of
                   None \<Rightarrow> (Inl NotFoundError, s1)
                 | Some metadata \<Rightarrow>
                     (Inr (ws1\<lparr>ws_stripeBlocks := []\<rparr>),
                      s1\<lparr>catalog := (catalog s1)(relfilenode \<mapsto>
                            metadata\<lparr>stripeMetadataList := stripeMetadataList metadata @
                              [\<lparr>fileOffset = length file,
                                rowCount = sum_list (map sb_rowCount (ws_stripeBlocks ws1))\<rparr>]\<rparr>)\<rparr>)))"

text \<open>Modelled from the spec: \<^verbatim>\<open>CStoreBeginWrite\<close> is not in the sources. Section 4.4,
  \<open>beginWrite\<close>: opens or creates the catalog entry and establishes the thresholds.\<close>

definition CStoreBeginWrite ::
  "RelationData \<Rightarrow> CompressionType \<Rightarrow> nat \<Rightarrow> nat \<Rightarrow> TupleDescData \<Rightarrow> cstore_state \<Rightarrow> TableWriteState result" where
  "CStoreBeginWrite rel kind stripeMaxRowCount blockRows tupdesc s =
     (let relfilenode = relNode (rd_node rel);
          s1 = (case catalog s relfilenode of
                  None \<Rightarrow> s\<lparr>catalog := (catalog s)(relfilenode \<mapsto>
                            \<lparr>blockRowCount = blockRows, stripeMetadataList = []\<rparr>)\<rparr>
                | Some metadata \<Rightarrow> s)
      in (Inr \<lparr>relation = rel, ws_compressionType = kind, ws_stripeMaxRowCount = stripeMaxRowCount,
               ws_blockRowCount = blockRows, ws_tupleDescriptor = tupdesc,
               ws_stripeBlocks = [], ws_blockBuffer = []\<rparr>, s1))"

text \<open>Modelled from the spec: \<^verbatim>\<open>CStoreWriteRow\<close> is not in the sources. Section 4.4, \<open>writeRow\<close>:
  appends the row to the buffer, flushes the block when the block row count is reached and
  finalises the stripe when the stripe row count is reached; a row of another width is a
  \<open>SchemaMismatchError\<close>.\<close>

definition CStoreWriteRow :: "TableWriteState \<Rightarrow> Datum list \<Rightarrow> bool list \<Rightarrow> cstore_state \<Rightarrow> TableWriteState result" where
  "CStoreWriteRow ws columnValues columnNulls s =
     (let columnCount = natts (ws_tupleDescriptor ws)
      in if length columnValues \<noteq> columnCount \<or> length columnNulls \<noteq> columnCount
         then (Inl SchemaMismatchError, s)
         else
           (let ws1 = ws\<lparr>ws_blockBuffer := ws_blockBuffer ws @ [(columnValues, columnNulls)]\<rparr>;
                ws2 = (if ws_blockRowCount ws1 \<le> length (ws_blockBuffer ws1)
                       then FlushBlock (pglz_compress s) ws1 else ws1)
            in if ws_stripeMaxRowCount ws2 \<le> StripeRowCount ws2
               then FlushStripe ws2 s
               else (Inr ws2, s)))"

text \<open>Modelled from the spec: \<^verbatim>\<open>CStoreEndWrite\<close> is not in the sources. Section 4.4, \<open>endWrite\<close>:
  finalises a partially filled stripe; with no row pending there is nothing to finalise.\<close>

definition CStoreEndWrite :: "TableWriteState \<Rightarrow> cstore_state \<Rightarrow> unit result" where
  "CStoreEndWrite ws s =
     (if StripeRowCount ws = 0 then (Inr (), s)
      else case FlushStripe ws s of
             (Inl e, s1) \<Rightarrow> (Inl e, s1)
           | (Inr ws1, s1) \<Rightarrow> (Inr (), s1))"

subsection \<open>The read path of the engine\<close>

text \<open>Modelled from the spec: the read state machine is not in the sources. Section 4.6: a column
  is requested when the projected column list holds a variable with its attribute number.\<close>

definition column_requested :: "Var list \<Rightarrow> nat \<Rightarrow> bool" where
  "column_requested projected c = list_ex (\<lambda>v. sint (varattno v) = int c + 1) projected"

text \<open>Modelled from the spec: the block decoder is not in the sources. Section 4.2, decode: the values
  are put back at the positions the null bitmap marks as present; a payload of another
  length does not decode.\<close>

fun fill_values :: "bool list \<Rightarrow> Datum list \<Rightarrow> (Datum \<times> bool) list option" where
  "fill_values [] [] = Some []"
| "fill_values [] (v # vs) = None"
| "fill_values (False # es) vs = map_option ((#) (Plain 0, True)) (fill_values es vs)"
| "fill_values (True # es) [] = None"
| "fill_values (True # es) (v # vs) = map_option ((#) (v, False)) (fill_values es vs)"

text \<open>Modelled from the spec: the block decoder is not in the sources. Section 4.2, decode: the
  reverse of the encoding, giving as many values or null markers as the block has rows.\<close>

definition DecodeColumnBlock ::
  "(Datum list \<Rightarrow> nat \<Rightarrow> Datum list option) \<Rightarrow> ColumnBlock \<Rightarrow> error + (Datum \<times> bool) list" where
  "DecodeColumnBlock dz cb =
     (if length (cb_exists cb) \<noteq> cb_rowCount cb then Inl SchemaMismatchError
      else case codec_decode dz (cb_compressionType cb) (cb_payload cb)
                  (length (filter (\<lambda>e. e) (cb_exists cb))) of
             Inl e \<Rightarrow> Inl e
           | Inr raw \<Rightarrow>
               (case fill_values (cb_exists cb) raw of
                  None \<Rightarrow> Inl CodecError
                | Some cells \<Rightarrow> Inr cells))"

text \<open>Modelled from the spec: the results of decoding the columns of a block row, the first error
  winning (section 7: every error surfaces).\<close>

fun collect_results :: "(error + 'a) list \<Rightarrow> error + 'a list" where
  "collect_results [] = Inr []"
| "collect_results (Inl e # rs) = Inl e"
| "collect_results (Inr x # rs) =
     (case collect_results rs of Inl e \<Rightarrow> Inl e | Inr xs \<Rightarrow> Inr (x # xs))"

text \<open>Modelled from the spec: the read state machine is not in the sources. Section 4.6: the block
  of a requested column is decoded; the block of a column that is not requested is skipped and
  its positions are reported null. Section 7: a row count that disagrees is a
  \<open>SchemaMismatchError\<close>.\<close>

definition DecodeBlockColumn ::
  "(Datum list \<Rightarrow> nat \<Rightarrow> Datum list option) \<Rightarrow> Var list \<Rightarrow> StripeBlock \<Rightarrow> nat \<Rightarrow> error + (Datum \<times> bool) list" where
  "DecodeBlockColumn dz projected sb c =
     (if column_requested projected c
      then (case DecodeColumnBlock dz (sb_columns sb ! c) of
              Inl e \<Rightarrow> Inl e
            | Inr cells \<Rightarrow> if length cells = sb_rowCount sb then Inr cells else Inl SchemaMismatchError)
      else Inr (replicate (sb_rowCount sb) (Plain 0, True)))"

text \<open>Modelled from the spec: the read state machine is not in the sources. Section 4.6: one block's
  worth of rows is decoded at a time, per requested column, and the rows are rebuilt in the
  original order.\<close>

definition DecodeBlock ::
  "(Datum list \<Rightarrow> nat \<Rightarrow> Datum list option) \<Rightarrow> Var list \<Rightarrow> nat \<Rightarrow> StripeBlock \<Rightarrow> error + Row list" where
  "DecodeBlock dz projected columnCount sb =
     (if length (sb_columns sb) \<noteq> columnCount then Inl SchemaMismatchError
      else case collect_results (map (DecodeBlockColumn dz projected sb) [0..<columnCount]) of
             Inl e \<Rightarrow> Inl e
           | Inr columns \<Rightarrow>
               Inr (map (\<lambda>i. (map (\<lambda>col. fst (col ! i)) columns, map (\<lambda>col. snd (col ! i)) columns))
                        [0..<sb_rowCount sb]))"

text \<open>Modelled from the spec: the read state machine is not in the sources. Section 4.6: crossing a
  block boundary decodes the next block.\<close>

fun ReadNextBlockRow ::
  "(Datum list \<Rightarrow> nat \<Rightarrow> Datum list option) \<Rightarrow> Var list \<Rightarrow> nat \<Rightarrow> StripeBlock list
     \<Rightarrow> error + (Row \<times> Row list \<times> StripeBlock list) option" where
  "ReadNextBlockRow dz projected columnCount [] = Inr None"
| "ReadNextBlockRow dz projected columnCount (sb # blocks) =
     (case DecodeBlock dz projected columnCount sb of
        Inl e \<Rightarrow> Inl e
      | Inr [] \<Rightarrow> ReadNextBlockRow dz projected columnCount blocks
      | Inr (r # rows) \<Rightarrow> Inr (Some (r, rows, blocks)))"

text \<open>Modelled from the spec: the stripe reader is not in the sources. Section 4.6: a stripe is read
  at the offset its descriptor gives; section 7: an offset outside the data region is an
  \<open>IOError\<close>, a row count that disagrees a \<open>SchemaMismatchError\<close>.\<close>

definition LoadStripe :: "StripeData list \<Rightarrow> StripeMetadata \<Rightarrow> error + StripeData" where
  "LoadStripe file stripe =
     (if fileOffset stripe < length file
      then (let blocks = file ! fileOffset stripe
            in if sum_list (map sb_rowCount blocks) = rowCount stripe then Inr blocks
               else Inl SchemaMismatchError)
      else Inl IOError)"

text \<open>Modelled from the spec: the read state machine is not in the sources. Section 4.6: stripes are
  read in the order of the catalog, and crossing a stripe boundary reads the next stripe.\<close>

fun ReadNextStripeRow ::
  "(Datum list \<Rightarrow> nat \<Rightarrow> Datum list option) \<Rightarrow> Var list \<Rightarrow> nat \<Rightarrow> StripeData list \<Rightarrow> StripeMetadata list
     \<Rightarrow> error + (Row \<times> Row list \<times> StripeBlock list \<times> StripeMetadata list) option" where
  "ReadNextStripeRow dz projected columnCount file [] = Inr None"
| "ReadNextStripeRow dz projected columnCount file (stripe # stripes) =
     (case LoadStripe file stripe of
        Inl e \<Rightarrow> Inl e
      | Inr blocks \<Rightarrow>
          (case ReadNextBlockRow dz projected columnCount blocks of
             Inl e \<Rightarrow> Inl e
           | Inr None \<Rightarrow> ReadNextStripeRow dz projected columnCount file stripes
           | Inr (Some (r, rows, rest)) \<Rightarrow> Inr (Some (r, rows, rest, stripes))))"

text \<open>Modelled from the spec: \<^verbatim>\<open>CStoreBeginRead\<close> is not in the sources. Section 4.6,
  \<open>beginRead\<close>: loads the stripe list of the relation from the catalog; a relation without
  metadata is a \<open>NotFoundError\<close>.\<close>

definition CStoreBeginRead ::
  "RelationData \<Rightarrow> TupleDescData \<Rightarrow> Var list \<Rightarrow> Node list \<Rightarrow> cstore_state \<Rightarrow> TableReadState result" where
  "CStoreBeginRead rel tupdesc projected whereClauses s =
     (case catalog s (relNode (rd_node rel)) of
        None \<Rightarrow> (Inl NotFoundError, s)
      | Some metadata \<Rightarrow>
          (Inr \<lparr>rs_relation = rel, rs_tupleDescriptor = tupdesc, projectedColumnList = projected,
                whereClauseList = whereClauses, rs_stripeList = stripeMetadataList metadata,
                rs_stripeBlocks = [], rs_blockRows = []\<rparr>, s))"

text \<open>Modelled from the spec: \<^verbatim>\<open>CStoreReadNextRow\<close> is not in the sources. Section 4.6,
  \<open>readNextRow\<close>: yields the rows in stripe order, then in the order within the stripe, and
  no row when all stripes are exhausted.\<close>

definition CStoreReadNextRow :: "TableReadState \<Rightarrow> cstore_state \<Rightarrow> (Row option \<times> TableReadState) result" where
  "CStoreReadNextRow rs s =
     (let dz = pglz_decompress s;
          projected = projectedColumnList rs;
          columnCount = natts (rs_tupleDescriptor rs)
      in case rs_blockRows rs of
           r # rows \<Rightarrow> (Inr (Some r, rs\<lparr>rs_blockRows := rows\<rparr>), s)
         | [] \<Rightarrow>
             (case ReadNextBlockRow dz projected columnCount (rs_stripeBlocks rs) of
                Inl e \<Rightarrow> (Inl e, s)
              | Inr (Some (r, rows, blocks)) \<Rightarrow>
                  (Inr (Some r, rs\<lparr>rs_stripeBlocks := blocks, rs_blockRows := rows\<rparr>), s)
              | Inr None \<Rightarrow>
                  (let file = (case storage s (relNode (rd_node (rs_relation rs))) of
                                 None \<Rightarrow> [] | Some f \<Rightarrow> f)
                   in case ReadNextStripeRow dz projected columnCount file (rs_stripeList rs) of
                        Inl e \<Rightarrow> (Inl e, s)
                      | Inr None \<Rightarrow>
                          (Inr (None, rs\<lparr>rs_stripeList := [], rs_stripeBlocks := [], rs_blockRows := []\<rparr>), s)
                      | Inr (Some (r, rows, blocks, stripes)) \<Rightarrow>
                          (Inr (Some r, rs\<lparr>rs_stripeList := stripes, rs_stripeBlocks := blocks,
                                            rs_blockRows := rows\<rparr>), s))))"

text \<open>Modelled from the spec: \<^verbatim>\<open>CStoreEndRead\<close> is not in the sources. Section 4.6, \<open>endRead\<close>:
  releases the decode buffers.\<close>

definition CStoreEndRead :: "TableReadState \<Rightarrow> cstore_state \<Rightarrow> unit result" where
  "CStoreEndRead rs s = (Inr (), s)"

subsection \<open>The adapter: write state\<close>

definition CStoreTableAMGetOptions :: "cstore_state \<Rightarrow> CStoreOptions" where
  "CStoreTableAMGetOptions s =
     \<lparr>compressionType = cstore_compression s,
      stripeRowCount = cstore_stripe_row_count s,
      blockRowCount = cstore_block_row_count s\<rparr>"

definition Assert :: "bool \<Rightarrow> bool \<Rightarrow> cstore_state \<Rightarrow> unit result" where
  "Assert USE_ASSERT_CHECKING condition s =
     (if USE_ASSERT_CHECKING \<and> \<not> condition then (Inl AssertFailure, s) else (Inr (), s))"

definition cstore_init_write_state :: "bool \<Rightarrow> RelationData \<Rightarrow> cstore_state \<Rightarrow> unit result" where
  "cstore_init_write_state USE_ASSERT_CHECKING rel s =
     (case (case CStoreWriteState s of
              Some ws \<Rightarrow> Assert USE_ASSERT_CHECKING (rd_id (relation ws) = rd_id rel) s
            | None \<Rightarrow> (Inr (), s)) of
        (Inl e, s1) \<Rightarrow> (Inl e, s1)
      | (Inr u, s1) \<Rightarrow>
          (case CStoreWriteState s1 of
             None \<Rightarrow>
               (let cstoreOptions = CStoreTableAMGetOptions s1;
                    tupdesc = RelationGetDescr rel
                in case CStoreBeginWrite rel
                          (CStoreOptions.compressionType cstoreOptions)
                          (CStoreOptions.stripeRowCount cstoreOptions)
                          (CStoreOptions.blockRowCount cstoreOptions)
                          tupdesc s1 of
                     (Inl e, s2) \<Rightarrow> (Inl e, s2)
                   | (Inr ws, s2) \<Rightarrow> (Inr (), s2\<lparr>CStoreWriteState := Some ws\<rparr>))
           | Some ws \<Rightarrow> (Inr (), s1)))"

definition cstore_free_write_state :: "cstore_state \<Rightarrow> unit result" where
  "cstore_free_write_state s =
     (case CStoreWriteState s of
        Some ws \<Rightarrow>
          (case CStoreEndWrite ws s of
             (Inl e, s1) \<Rightarrow> (Inl e, s1)
           | (Inr u, s1) \<Rightarrow> (Inr (), s1\<lparr>CStoreWriteState := None\<rparr>))
      | None \<Rightarrow> (Inr (), s))"

subsection \<open>The adapter: scans\<close>

text \<open>The loop of \<^verbatim>\<open>RelationColumnList\<close> runs \<open>i\<close> over \<open>0..<natts\<close>, skips a dropped
  attribute and appends a variable otherwise; \<^verbatim>\<open>varattno = i + 1\<close> converts an
  \<^verbatim>\<open>int\<close> to the 16 bits of an \<^verbatim>\<open>AttrNumber\<close>.\<close>

definition RelationColumnList :: "RelationData \<Rightarrow> Var list" where
  "RelationColumnList rel =
     (let tupdesc = RelationGetDescr rel
      in foldl (\<lambda>columnList i.
                  if attisdropped (attrs tupdesc ! i) then columnList
                  else columnList @ [makeVar 0 (word_of_nat (i + 1)) (atttypid (attrs tupdesc ! i)) 0 0 0])
               [] [0..<natts tupdesc])"

record TableScanDescData =
  rs_rd :: RelationData
  rs_snapshot :: nat
  rs_nkeys :: int
  rs_key :: nat
  rs_flags :: "32 word"
  rs_parallel :: "nat option"

record CStoreScanDescData =
  cs_base :: TableScanDescData
  cs_readState :: "TableReadState option"

datatype ScanDirection = BackwardScanDirection | NoMovementScanDirection | ForwardScanDirection

definition cstore_beginscan ::
  "RelationData \<Rightarrow> nat \<Rightarrow> int \<Rightarrow> nat \<Rightarrow> nat option \<Rightarrow> 32 word \<Rightarrow> cstore_state \<Rightarrow> CStoreScanDescData result" where
  "cstore_beginscan rel snapshot nkeys key parallel_scan flags s =
     (let tupdesc = rd_att rel;
          base = \<lparr>rs_rd = rel, rs_snapshot = snapshot, rs_nkeys = nkeys, rs_key = key,
                  rs_flags = flags, rs_parallel = parallel_scan\<rparr>;
          columnList = RelationColumnList rel
      in case CStoreBeginRead rel tupdesc columnList [] s of
           (Inl e, s1) \<Rightarrow> (Inl e, s1)
         | (Inr readState, s1) \<Rightarrow> (Inr \<lparr>cs_base = base, cs_readState = Some readState\<rparr>, s1))"

definition cstore_endscan :: "CStoreScanDescData \<Rightarrow> cstore_state \<Rightarrow> CStoreScanDescData result" where
  "cstore_endscan scan s =
     (case cs_readState scan of
        None \<Rightarrow> (Inl NullPointer, s)
      | Some readState \<Rightarrow>
          (case CStoreEndRead readState s of
             (Inl e, s1) \<Rightarrow> (Inl e, s1)
           | (Inr u, s1) \<Rightarrow> (Inr (scan\<lparr>cs_readState := None\<rparr>), s1)))"

definition cstore_getnextslot ::
  "CStoreScanDescData \<Rightarrow> ScanDirection \<Rightarrow> TupleTableSlot \<Rightarrow> cstore_state
     \<Rightarrow> (bool \<times> CStoreScanDescData \<times> TupleTableSlot) result" where
  "cstore_getnextslot scan direction slot s =
     (let slot1 = ExecClearTuple slot
      in case cs_readState scan of
           None \<Rightarrow> (Inl NullPointer, s)
         | Some readState \<Rightarrow>
             (case CStoreReadNextRow readState s of
                (Inl e, s1) \<Rightarrow> (Inl e, s1)
              | (Inr (None, readState1), s1) \<Rightarrow>
                  (Inr (False, scan\<lparr>cs_readState := Some readState1\<rparr>, slot1), s1)
              | (Inr (Some (columnValues, columnNulls), readState1), s1) \<Rightarrow>
                  (Inr (True, scan\<lparr>cs_readState := Some readState1\<rparr>,
                        ExecStoreVirtualTuple (slot1\<lparr>tts_values := columnValues, tts_isnull := columnNulls\<rparr>)),
                   s1)))"

text \<open>The consumer of a sequential scan calls \<^verbatim>\<open>cstore_getnextslot\<close> until it returns
  false and collects the rows the slot held. The number of calls is bounded by the fuel;
  \<open>None\<close> means the fuel ran out before the scan ended.\<close>

fun seqscan_rows ::
  "nat \<Rightarrow> CStoreScanDescData \<Rightarrow> TupleTableSlot \<Rightarrow> cstore_state \<Rightarrow> (error + Row list) option" where
  "seqscan_rows 0 scan slot s = None"
| "seqscan_rows (Suc fuel) scan slot s =
     (case cstore_getnextslot scan ForwardScanDirection slot s of
        (Inl e, s1) \<Rightarrow> Some (Inl e)
      | (Inr (False, scan1, slot1), s1) \<Rightarrow> Some (Inr [])
      | (Inr (True, scan1, slot1), s1) \<Rightarrow>
          (case seqscan_rows fuel scan1 slot1 s1 of
             None \<Rightarrow> None
           | Some (Inl e) \<Rightarrow> Some (Inl e)
           | Some (Inr rows) \<Rightarrow> Some (Inr ((tts_values slot1, tts_isnull slot1) # rows))))"

definition cstore_tuple_satisfies_snapshot :: "RelationData \<Rightarrow> TupleTableSlot \<Rightarrow> nat \<Rightarrow> bool" where
  "cstore_tuple_satisfies_snapshot rel slot snapshot = True"

subsection \<open>The adapter: inserts\<close>

definition cstore_tuple_insert ::
  "bool \<Rightarrow> RelationData \<Rightarrow> TupleTableSlot \<Rightarrow> 32 word \<Rightarrow> int \<Rightarrow> nat option \<Rightarrow> cstore_state \<Rightarrow> TupleTableSlot result" where
  "cstore_tuple_insert USE_ASSERT_CHECKING rel slot cid options bistate s =
     (case cstore_init_write_state USE_ASSERT_CHECKING rel s of
        (Inl e, s1) \<Rightarrow> (Inl e, s1)
      | (Inr u, s1) \<Rightarrow>
          (let heapTuple = ExecCopySlotHeapTuple slot;
               slot1 = (if HeapTupleHasExternal heapTuple
                        then (let newTuple = toast_flatten_tuple (toast_store s1) heapTuple
                                               (tts_tupleDescriptor slot)
                              in ExecForceStoreHeapTuple newTuple slot True)
                        else slot);
               slot2 = slot_getallattrs slot1
           in case CStoreWriteState s1 of
                None \<Rightarrow> (Inl NullPointer, s1)
              | Some ws \<Rightarrow>
                  (case CStoreWriteRow ws (tts_values slot2) (tts_isnull slot2) s1 of
                     (Inl e, s2) \<Rightarrow> (Inl e, s2)
                   | (Inr ws1, s2) \<Rightarrow> (Inr slot2, s2\<lparr>CStoreWriteState := Some ws1\<rparr>))))"

text \<open>The loop of \<^verbatim>\<open>cstore_multi_insert\<close>: \<open>i\<close> runs from 0 while \<open>i < ntuples\<close>; reading
  \<^verbatim>\<open>slots[i]\<close> outside the array is an error of the model.\<close>

function cstore_multi_insert_loop ::
  "TupleTableSlot list \<Rightarrow> int \<Rightarrow> int \<Rightarrow> cstore_state \<Rightarrow> TupleTableSlot list result" where
  "cstore_multi_insert_loop slots ntuples i s =
     (if i < ntuples
      then (if i < 0 \<or> int (length slots) \<le> i then (Inl OutOfBounds, s)
            else
              (let tupleSlot = slots ! nat i;
                   heapTuple = ExecCopySlotHeapTuple tupleSlot;
                   tupleSlot1 = (if HeapTupleHasExternal heapTuple
                                 then (let newTuple = toast_flatten_tuple (toast_store s) heapTuple
                                                        (tts_tupleDescriptor tupleSlot)
                                       in ExecForceStoreHeapTuple newTuple tupleSlot True)
                                 else tupleSlot);
                   tupleSlot2 = slot_getallattrs tupleSlot1
               in case CStoreWriteState s of
                    None \<Rightarrow> (Inl NullPointer, s)
                  | Some ws \<Rightarrow>
                      (case CStoreWriteRow ws (tts_values tupleSlot2) (tts_isnull tupleSlot2) s of
                         (Inl e, s1) \<Rightarrow> (Inl e, s1)
                       | (Inr ws1, s1) \<Rightarrow>
                           cstore_multi_insert_loop (slots[nat i := tupleSlot2]) ntuples (i + 1)
                             (s1\<lparr>CStoreWriteState := Some ws1\<rparr>))))
      else (Inr slots, s))"
  by pat_completeness auto
termination
  by (relation "measure (\<lambda>(slots, ntuples, i, s). nat (ntuples - i))") auto

declare cstore_multi_insert_loop.simps [simp del]

definition cstore_multi_insert ::
  "bool \<Rightarrow> RelationData \<Rightarrow> TupleTableSlot list \<Rightarrow> int \<Rightarrow> 32 word \<Rightarrow> int \<Rightarrow> nat option \<Rightarrow> cstore_state
     \<Rightarrow> TupleTableSlot list result" where
  "cstore_multi_insert USE_ASSERT_CHECKING rel slots ntuples cid options bistate s =
     (case cstore_init_write_state USE_ASSERT_CHECKING rel s of
        (Inl e, s1) \<Rightarrow> (Inl e, s1)
      | (Inr u, s1) \<Rightarrow> cstore_multi_insert_loop slots ntuples 0 s1)"

text \<open>\<open>n\<close> successive calls of \<^verbatim>\<open>cstore_tuple_insert\<close>, one per slot, in order.\<close>

fun tuple_insert_each ::
  "bool \<Rightarrow> RelationData \<Rightarrow> TupleTableSlot list \<Rightarrow> 32 word \<Rightarrow> int \<Rightarrow> nat option \<Rightarrow> cstore_state
     \<Rightarrow> TupleTableSlot list result" where
  "tuple_insert_each USE_ASSERT_CHECKING rel [] cid options bistate s = (Inr [], s)"
| "tuple_insert_each USE_ASSERT_CHECKING rel (slot # slots) cid options bistate s =
     (case cstore_tuple_insert USE_ASSERT_CHECKING rel slot cid options bistate s of
        (Inl e, s1) \<Rightarrow> (Inl e, s1)
      | (Inr slot1, s1) \<Rightarrow>
          (case tuple_insert_each USE_ASSERT_CHECKING rel slots cid options bistate s1 of
             (Inl e, s2) \<Rightarrow> (Inl e, s2)
           | (Inr slots1, s2) \<Rightarrow> (Inr (slot1 # slots1), s2)))"

datatype TM_Result =
  TM_Ok | TM_Invisible | TM_SelfModified | TM_Updated | TM_Deleted | TM_BeingModified | TM_WouldBlock

definition cstore_tuple_delete ::
  "RelationData \<Rightarrow> nat \<Rightarrow> 32 word \<Rightarrow> nat \<Rightarrow> nat \<Rightarrow> bool \<Rightarrow> nat \<Rightarrow> bool \<Rightarrow> cstore_state \<Rightarrow> TM_Result result" where
  "cstore_tuple_delete rel tid cid snapshot crosscheck wait tmfd changingPart s =
     (Inl (ElogError ''cstore_tuple_delete not implemented''), s)"

definition cstore_tuple_update ::
  "RelationData \<Rightarrow> nat \<Rightarrow> TupleTableSlot \<Rightarrow> 32 word \<Rightarrow> nat \<Rightarrow> nat \<Rightarrow> bool \<Rightarrow> nat \<Rightarrow> nat \<Rightarrow> bool
     \<Rightarrow> cstore_state \<Rightarrow> TM_Result result" where
  "cstore_tuple_update rel otid slot cid snapshot crosscheck wait tmfd lockmode update_indexes s =
     (Inl (ElogError ''cstore_tuple_update not implemented''), s)"

definition cstore_finish_bulk_insert :: "RelationData \<Rightarrow> int \<Rightarrow> cstore_state \<Rightarrow> unit result" where
  "cstore_finish_bulk_insert rel options s = cstore_free_write_state s"

subsection \<open>The adapter: relation storage\<close>

text \<open>The host's storage manager: \<^verbatim>\<open>RelationCreateStorage\<close> creates the empty data region
  of a relfilenode, \<^verbatim>\<open>RelationTruncate(rel, 0)\<close> empties the region of a relation (the
  adapter calls it with 0 blocks only).\<close>

definition RELPERSISTENCE_PERMANENT :: char where
  "RELPERSISTENCE_PERMANENT = CHR ''p''"

definition RelationCreateStorage :: "RelFileNode \<Rightarrow> char \<Rightarrow> cstore_state \<Rightarrow> cstore_state" where
  "RelationCreateStorage rnode persistence s = s\<lparr>storage := (storage s)(relNode rnode \<mapsto> [])\<rparr>"

definition RelationTruncate :: "RelationData \<Rightarrow> nat \<Rightarrow> cstore_state \<Rightarrow> cstore_state" where
  "RelationTruncate rel nblocks s =
     (if nblocks = 0 then s\<lparr>storage := (storage s)(relNode (rd_node rel) \<mapsto> [])\<rparr> else s)"

definition GetOldestMultiXactId :: "cstore_state \<Rightarrow> 32 word" where
  "GetOldestMultiXactId s = OldestMultiXactId s"

text \<open>The two output parameters \<^verbatim>\<open>*freezeXid\<close> and \<^verbatim>\<open>*minmulti\<close> are the returned pair.\<close>

definition cstore_relation_set_new_filenode ::
  "bool \<Rightarrow> RelationData \<Rightarrow> RelFileNode \<Rightarrow> char \<Rightarrow> cstore_state \<Rightarrow> (32 word \<times> 32 word) result" where
  "cstore_relation_set_new_filenode USE_ASSERT_CHECKING rel newrnode persistence s =
     (case ReadDataFileMetadata (relNode (rd_node rel)) True s of
        (Inl e, s1) \<Rightarrow> (Inl e, s1)
      | (Inr metadata, s1) \<Rightarrow>
          (let blockRows = (case metadata of
                              Some existing \<Rightarrow> DataFileMetadata.blockRowCount existing
                            | None \<Rightarrow> CStoreOptions.blockRowCount (CStoreTableAMGetOptions s1));
               s2 = DeleteDataFileMetadataRowIfExists (relNode (rd_node rel)) s1
           in case Assert USE_ASSERT_CHECKING (persistence = RELPERSISTENCE_PERMANENT) s2 of
                (Inl e, s3) \<Rightarrow> (Inl e, s3)
              | (Inr u, s3) \<Rightarrow>
                  (let freezeXid = RecentXmin s3;
                       minmulti = GetOldestMultiXactId s3;
                       s4 = RelationCreateStorage newrnode persistence s3;
                       s5 = InitCStoreDataFileMetadata (relNode newrnode) blockRows s4
                   in (Inr (freezeXid, minmulti), s5))))"

definition cstore_relation_nontransactional_truncate :: "RelationData \<Rightarrow> cstore_state \<Rightarrow> unit result" where
  "cstore_relation_nontransactional_truncate rel s =
     (case ReadDataFileMetadata (relNode (rd_node rel)) False s of
        (Inl e, s1) \<Rightarrow> (Inl e, s1)
      | (Inr metadata, s1) \<Rightarrow>
          (let s2 = RelationTruncate rel 0 s1;
               s3 = DeleteDataFileMetadataRowIfExists (relNode (rd_node rel)) s2
           in case metadata of
                None \<Rightarrow> (Inl NullPointer, s3)
              | Some existing \<Rightarrow>
                  (Inr (), InitCStoreDataFileMetadata (relNode (rd_node rel))
                             (DataFileMetadata.blockRowCount existing) s3)))"

text \<open>The assignment \<^verbatim>\<open>*tuples = CStoreTableRowCount(rel)\<close> converts an integer count to a
  \<^verbatim>\<open>double\<close>. A \<^verbatim>\<open>double\<close> has 53 significant bits: a count below \<open>2^53\<close> is converted
  exactly, a count of more bits is rounded to the nearest multiple of \<open>2^e\<close>, where \<open>e\<close>
  is the number of bits beyond 53, a tie going to the even multiple. The value of a
  \<^verbatim>\<open>double\<close> is a real number. (Counts stay far below the largest \<^verbatim>\<open>double\<close>.)\<close>

fun bit_length :: "nat \<Rightarrow> nat" where
  "bit_length n = (if n = 0 then 0 else Suc (bit_length (n div 2)))"

declare bit_length.simps [simp del]

definition double_of_count :: "nat \<Rightarrow> real" where
  "double_of_count n =
     (if n < 2 ^ 53 then real n
      else (let e = bit_length n - 53;
                q = n div 2 ^ e;
                r = n mod 2 ^ e;
                half = 2 ^ (e - 1);
                rounded = (if half < r \<or> (r = half \<and> odd q) then q + 1 else q)
            in real (rounded * 2 ^ e)))"

text \<open>The output parameters \<^verbatim>\<open>*pages\<close>, \<^verbatim>\<open>*tuples\<close> and \<^verbatim>\<open>*allvisfrac\<close> are the returned
  record, the two \<^verbatim>\<open>double\<close>s by their values. The attribute widths are filled in by the
  host's \<^verbatim>\<open>get_rel_data_width\<close> and are not part of the record.\<close>

record RelSizeEstimate =
  pages :: "32 word"
  tuples :: real
  allvisfrac :: real

definition cstore_estimate_rel_size :: "RelationData \<Rightarrow> cstore_state \<Rightarrow> RelSizeEstimate result" where
  "cstore_estimate_rel_size rel s =
     (let nblocks = smgrnblocks_main s (relNode (rd_node rel))
      in case CStoreTableRowCount rel s of
           (Inl e, s1) \<Rightarrow> (Inl e, s1)
         | (Inr rows, s1) \<Rightarrow>
             (Inr \<lparr>pages = nblocks, tuples = double_of_count rows, allvisfrac = 1.0\<rparr>, s1))"

subsection \<open>The adapter: hooks\<close>

definition standard_ExecutorEnd :: "nat \<Rightarrow> cstore_state \<Rightarrow> unit result" where
  "standard_ExecutorEnd queryDesc s = (Inr (), s)"

definition CStoreExecutorEnd ::
  "(nat \<Rightarrow> cstore_state \<Rightarrow> unit result) option \<Rightarrow> nat \<Rightarrow> cstore_state \<Rightarrow> unit result" where
  "CStoreExecutorEnd PreviousExecutorEndHook queryDesc s =
     (case cstore_free_write_state s of
        (Inl e, s1) \<Rightarrow> (Inl e, s1)
      | (Inr u, s1) \<Rightarrow>
          (case PreviousExecutorEndHook of
             Some hook \<Rightarrow> hook queryDesc s1
           | None \<Rightarrow> standard_ExecutorEnd queryDesc s1))"

datatype ObjectAccessType =
  OAT_POST_CREATE | OAT_DROP | OAT_POST_ALTER | OAT_NAMESPACE_SEARCH | OAT_FUNCTION_EXECUTE

definition RelationRelationId :: Oid where
  "RelationRelationId = 1259"

definition IsCStoreTableAmTable :: "Oid \<Rightarrow> cstore_state \<Rightarrow> bool result" where
  "IsCStoreTableAmTable relationId s =
     (if \<not> OidIsValid relationId then (Inr False, s)
      else case relation_open relationId s of
             (Inl e, s1) \<Rightarrow> (Inl e, s1)
           | (Inr rel, s1) \<Rightarrow> (Inr (rd_tableam rel = GetCstoreTableAmRoutine), s1))"

type_synonym object_access_hook_type =
  "ObjectAccessType \<Rightarrow> Oid \<Rightarrow> Oid \<Rightarrow> 32 word \<Rightarrow> nat \<Rightarrow> cstore_state \<Rightarrow> unit result"

text \<open>\<^verbatim>\<open>subId\<close> is a C \<^verbatim>\<open>int\<close>; the hook only tests it against zero.\<close>

definition CStoreTableAMObjectAccessHook :: "object_access_hook_type option \<Rightarrow> object_access_hook_type" where
  "CStoreTableAMObjectAccessHook prevObjectAccessHook access classId objectId subId arg s =
     (case (case prevObjectAccessHook of
              Some hook \<Rightarrow> hook access classId objectId subId arg s
            | None \<Rightarrow> (Inr (), s)) of
        (Inl e, s1) \<Rightarrow> (Inl e, s1)
      | (Inr u, s1) \<Rightarrow>
          if access \<noteq> OAT_DROP \<or> classId \<noteq> RelationRelationId \<or> OidIsValid subId
          then (Inr (), s1)
          else
            (case IsCStoreTableAmTable objectId s1 of
               (Inl e, s2) \<Rightarrow> (Inl e, s2)
             | (Inr isCStore, s2) \<Rightarrow>
                 if isCStore
                 then (case table_open objectId s2 of
                         (Inl e, s3) \<Rightarrow> (Inl e, s3)
                       | (Inr rel, s3) \<Rightarrow>
                           (Inr (), DeleteDataFileMetadataRowIfExists (relNode (rd_node rel)) s3))
                 else (Inr (), s2)))"

subsection \<open>Auxiliary definitions\<close>

text \<open>A write state is open for a relation when \<^verbatim>\<open>CStoreWriteState\<close> is set and, in an
  assertion-enabled build, belongs to that relation: the states in which
  \<^verbatim>\<open>cstore_init_write_state\<close> returns without doing anything.\<close>

definition write_open :: "bool \<Rightarrow> RelationData \<Rightarrow> cstore_state \<Rightarrow> bool" where
  "write_open USE_ASSERT_CHECKING rel s =
     (\<exists>ws. CStoreWriteState s = Some ws \<and> (USE_ASSERT_CHECKING \<longrightarrow> rd_id (relation ws) = rd_id rel))"

text \<open>The slot as both insert paths hand it to \<^verbatim>\<open>CStoreWriteRow\<close>: detoasted when its heap
  tuple has an external attribute, all attributes fetched.\<close>

definition prepared_slot :: "cstore_state \<Rightarrow> TupleTableSlot \<Rightarrow> TupleTableSlot" where
  "prepared_slot s slot =
     slot_getallattrs
       (if HeapTupleHasExternal (ExecCopySlotHeapTuple slot)
        then ExecForceStoreHeapTuple
               (toast_flatten_tuple (toast_store s) (ExecCopySlotHeapTuple slot) (tts_tupleDescriptor slot))
               slot True
        else slot)"

text \<open>What a cell and a row read back as: the value of a requested column that is not
  null, and a null in every other position.\<close>

definition stored_cell :: "bool \<Rightarrow> Datum \<times> bool \<Rightarrow> Datum \<times> bool" where
  "stored_cell requested cell = (if requested \<and> \<not> snd cell then (fst cell, False) else (Plain 0, True))"

definition stored_row :: "Var list \<Rightarrow> nat \<Rightarrow> Row \<Rightarrow> Row" where
  "stored_row projected columnCount r =
     (map (\<lambda>c. fst (stored_cell (column_requested projected c) (fst r ! c, snd r ! c))) [0..<columnCount],
      map (\<lambda>c. snd (stored_cell (column_requested projected c) (fst r ! c, snd r ! c))) [0..<columnCount])"

text \<open>The host's compression library is lossless.\<close>

definition codec_ok ::
  "CompressionType \<Rightarrow> (Datum list \<Rightarrow> Datum list) \<Rightarrow> (Datum list \<Rightarrow> nat \<Rightarrow> Datum list option) \<Rightarrow> bool" where
  "codec_ok kind cz dz = (kind = COMPRESSION_PG_LZ \<longrightarrow> (\<forall>raw. dz (cz raw) (length raw) = Some raw))"

text \<open>All rows of a list of block rows, and of a list of stripes, in order.\<close>

fun decode_blocks ::
  "(Datum list \<Rightarrow> nat \<Rightarrow> Datum list option) \<Rightarrow> Var list \<Rightarrow> nat \<Rightarrow> StripeBlock list \<Rightarrow> error + Row list" where
  "decode_blocks dz projected n [] = Inr []"
| "decode_blocks dz projected n (sb # blocks) =
     (case DecodeBlock dz projected n sb of
        Inl e \<Rightarrow> Inl e
      | Inr rows \<Rightarrow>
          (case decode_blocks dz projected n blocks of
             Inl e \<Rightarrow> Inl e
           | Inr rest \<Rightarrow> Inr (rows @ rest)))"

fun decode_stripes ::
  "(Datum list \<Rightarrow> nat \<Rightarrow> Datum list option) \<Rightarrow> Var list \<Rightarrow> nat \<Rightarrow> StripeData list \<Rightarrow> StripeMetadata list
     \<Rightarrow> error + Row list" where
  "decode_stripes dz projected n file [] = Inr []"
| "decode_stripes dz projected n file (stripe # stripes) =
     (case LoadStripe file stripe of
        Inl e \<Rightarrow> Inl e
      | Inr blocks \<Rightarrow>
          (case decode_blocks dz projected n blocks of
             Inl e \<Rightarrow> Inl e
           | Inr rows \<Rightarrow>
               (case decode_stripes dz projected n file stripes of
                  Inl e \<Rightarrow> Inl e
                | Inr rest \<Rightarrow> Inr (rows @ rest))))"

text \<open>The invariant of an open write state: the rows written so far are the rows of the
  stripes the catalog lists, then those of the blocks of the stripe under construction,
  then the buffered ones. After the flush all of them are in the listed stripes.\<close>

definition write_inv ::
  "(Datum list \<Rightarrow> nat \<Rightarrow> Datum list option) \<Rightarrow> Var list \<Rightarrow> RelationData \<Rightarrow> cstore_state
     \<Rightarrow> TableWriteState \<Rightarrow> Row list \<Rightarrow> bool" where
  "write_inv dz projected rel s ws R =
     (relation ws = rel \<and> ws_tupleDescriptor ws = rd_att rel \<and> pglz_decompress s = dz \<and>
      codec_ok (ws_compressionType ws) (pglz_compress s) dz \<and>
      (\<exists>metadata dataFile R1 R2.
          catalog s (relNode (rd_node rel)) = Some metadata \<and>
          storage s (relNode (rd_node rel)) = Some dataFile \<and>
          decode_stripes dz projected (natts (rd_att rel)) dataFile (stripeMetadataList metadata) = Inr R1 \<and>
          decode_blocks dz projected (natts (rd_att rel)) (ws_stripeBlocks ws) = Inr R2 \<and>
          R = R1 @ R2 @ map (stored_row projected (natts (rd_att rel))) (ws_blockBuffer ws)))"

definition stored_inv ::
  "(Datum list \<Rightarrow> nat \<Rightarrow> Datum list option) \<Rightarrow> Var list \<Rightarrow> RelationData \<Rightarrow> cstore_state \<Rightarrow> Row list \<Rightarrow> bool" where
  "stored_inv dz projected rel s R =
     (pglz_decompress s = dz \<and>
      (\<exists>metadata dataFile.
          catalog s (relNode (rd_node rel)) = Some metadata \<and>
          storage s (relNode (rd_node rel)) = Some dataFile \<and>
          decode_stripes dz projected (natts (rd_att rel)) dataFile (stripeMetadataList metadata) = Inr R))"

text \<open>What the engine's write path leaves as it is.\<close>

definition same_host :: "cstore_state \<Rightarrow> cstore_state \<Rightarrow> bool" where
  "same_host s s1 =
     (pglz_compress s1 = pglz_compress s \<and> pglz_decompress s1 = pglz_decompress s \<and>
      toast_store s1 = toast_store s \<and> CStoreWriteState s1 = CStoreWriteState s)"

text \<open>The row a slot holds; a slot fits a descriptor when its two arrays have the
  descriptor's length and every dropped attribute is null, as the host builds it.\<close>

definition slot_row :: "TupleTableSlot \<Rightarrow> Row" where
  "slot_row slot = (tts_values slot, tts_isnull slot)"

definition slot_fits :: "TupleDescData \<Rightarrow> TupleTableSlot \<Rightarrow> bool" where
  "slot_fits tupdesc slot =
     (length (tts_values slot) = natts tupdesc \<and> length (tts_isnull slot) = natts tupdesc \<and>
      list_all (\<lambda>c. attisdropped (attrs tupdesc ! c) \<longrightarrow> tts_isnull slot ! c) [0..<natts tupdesc])"

text \<open>The value a datum stands for (an external datum stands for the value the TOAST store
  holds), and the content of a row: per attribute, null or the value.\<close>

fun datum_value :: "(nat \<Rightarrow> nat) \<Rightarrow> Datum \<Rightarrow> nat" where
  "datum_value toast (Plain v) = v"
| "datum_value toast (External p) = toast p"

definition row_content :: "(nat \<Rightarrow> nat) \<Rightarrow> Row \<Rightarrow> nat option list" where
  "row_content toast r =
     map (\<lambda>(v, isnull). if isnull then None else Some (datum_value toast v)) (zip (fst r) (snd r))"

text \<open>A write state is open and satisfies the invariant.\<close>

definition open_inv ::
  "(Datum list \<Rightarrow> nat \<Rightarrow> Datum list option) \<Rightarrow> Var list \<Rightarrow> RelationData \<Rightarrow> cstore_state \<Rightarrow> Row list \<Rightarrow> bool" where
  "open_inv dz projected rel s R =
     (\<exists>ws. CStoreWriteState s = Some ws \<and> write_inv dz projected rel s ws R)"

text \<open>The rows a read state has still to yield: the decoded rows it holds, then those of
  the remaining blocks of its stripe, then those of the remaining stripes.\<close>

definition pending_rows :: "cstore_state \<Rightarrow> TableReadState \<Rightarrow> error + Row list" where
  "pending_rows s rs =
     (let dz = pglz_decompress s;
          projected = projectedColumnList rs;
          columnCount = natts (rs_tupleDescriptor rs);
          dataFile = (case storage s (relNode (rd_node (rs_relation rs))) of None \<Rightarrow> [] | Some f \<Rightarrow> f)
      in case decode_blocks dz projected columnCount (rs_stripeBlocks rs) of
           Inl e \<Rightarrow> Inl e
         | Inr B \<Rightarrow>
             (case decode_stripes dz projected columnCount dataFile (rs_stripeList rs) of
                Inl e \<Rightarrow> Inl e
              | Inr S \<Rightarrow> Inr (rs_blockRows rs @ B @ S)))"

subsection \<open>Example values\<close>

text \<open>A relation of three attributes, the second one dropped, with block row count 2 and
  stripe row count 4; a second relation of the same shape; a state in which both are
  empty, and one in which the first holds two stripes written with block row count 3.\<close>

definition example_tupdesc :: TupleDescData where
  "example_tupdesc = \<lparr>attrs = [\<lparr>atttypid = 23, attisdropped = False\<rparr>,
                               \<lparr>atttypid = 20, attisdropped = True\<rparr>,
                               \<lparr>atttypid = 25, attisdropped = False\<rparr>]\<rparr>"

definition example_rel :: RelationData where
  "example_rel = \<lparr>rd_id = 16384, rd_node = \<lparr>relNode = 16390\<rparr>, rd_att = example_tupdesc,
                   rd_tableam = cstore_am_methods\<rparr>"

definition other_rel :: RelationData where
  "other_rel = \<lparr>rd_id = 16385, rd_node = \<lparr>relNode = 16391\<rparr>, rd_att = example_tupdesc,
                 rd_tableam = cstore_am_methods\<rparr>"

definition heap_rel :: RelationData where
  "heap_rel = \<lparr>rd_id = 16386, rd_node = \<lparr>relNode = 16392\<rparr>, rd_att = example_tupdesc,
                rd_tableam = heapam_methods\<rparr>"

definition example_state :: cstore_state where
  "example_state =
     \<lparr>CStoreWriteState = None, cstore_compression = COMPRESSION_PG_LZ,
      cstore_stripe_row_count = 4, cstore_block_row_count = 2,
      catalog = [16390 \<mapsto> \<lparr>blockRowCount = 2, stripeMetadataList = []\<rparr>,
                 16391 \<mapsto> \<lparr>blockRowCount = 2, stripeMetadataList = []\<rparr>],
      storage = [16390 \<mapsto> [], 16391 \<mapsto> []],
      relcache = [16384 \<mapsto> example_rel, 16385 \<mapsto> other_rel, 16386 \<mapsto> heap_rel],
      smgrnblocks_main = (\<lambda>relfilenode. 0),
      toast_store = (\<lambda>p. p + 100),
      pglz_compress = rev,
      pglz_decompress = (\<lambda>payload expected. Some (rev payload)),
      RecentXmin = 700, OldestMultiXactId = 1\<rparr>"

definition loaded_state :: cstore_state where
  "loaded_state =
     example_state\<lparr>catalog := (catalog example_state)(16390 \<mapsto>
       \<lparr>blockRowCount = 3,
        stripeMetadataList = [\<lparr>fileOffset = 0, rowCount = 4\<rparr>, \<lparr>fileOffset = 1, rowCount = 1\<rparr>]\<rparr>)\<rparr>"

definition example_slot :: "nat \<Rightarrow> nat \<Rightarrow> TupleTableSlot" where
  "example_slot a b =
     \<lparr>tts_empty = False, tts_values = [Plain a, Plain 0, External b],
      tts_isnull = [False, True, False], tts_tupleDescriptor = example_tupdesc\<rparr>"

definition example_slots :: "TupleTableSlot list" where
  "example_slots = [example_slot 1 11, example_slot 2 12, example_slot 3 13, example_slot 4 14, example_slot 5 15]"

definition example_write_state :: TableWriteState where
  "example_write_state =
     \<lparr>relation = example_rel, ws_compressionType = COMPRESSION_PG_LZ, ws_stripeMaxRowCount = 4,
      ws_blockRowCount = 2, ws_tupleDescriptor = example_tupdesc,
      ws_stripeBlocks = [], ws_blockBuffer = []\<rparr>"

text \<open>The state after \<^verbatim>\<open>cstore_init_write_state\<close> has opened a write state for the first
  relation.\<close>

definition open_state :: cstore_state where
  "open_state = example_state\<lparr>CStoreWriteState := Some example_write_state\<rparr>"

section \<open>Properties\<close>

subsection \<open>Opening and closing the write state\<close>

lemma init_write_open: "write_open a rel s \<Longrightarrow> cstore_init_write_state a rel s = (Inr (), s)"
  by (auto simp: write_open_def cstore_init_write_state_def Assert_def)

lemma init_result_open:
  "cstore_init_write_state a rel s = (Inr u, s1) \<Longrightarrow> write_open a rel s1"
  by (auto simp: write_open_def cstore_init_write_state_def Assert_def CStoreBeginWrite_def Let_def
      split: option.splits if_splits)

lemma open_state_init:
  "cstore_init_write_state False example_rel example_state = (Inr (), open_state)"
  by (simp add: open_state_def example_write_state_def cstore_init_write_state_def example_state_def
      CStoreBeginWrite_def CStoreTableAMGetOptions_def Let_def example_rel_def RelationGetDescr_def)

lemma insert_other_rel:
  "cstore_tuple_insert False other_rel (example_slot 1 2) 0 0 None open_state =
     (Inr (example_slot 1 2\<lparr>tts_values := [Plain 1, Plain 0, Plain 102]\<rparr>),
      example_state\<lparr>CStoreWriteState := Some
        (example_write_state\<lparr>ws_blockBuffer := [([Plain 1, Plain 0, Plain 102], [False, True, False])]\<rparr>)\<rparr>)"
  by (simp add: open_state_def example_write_state_def cstore_tuple_insert_def
      cstore_init_write_state_def Assert_def example_state_def example_slot_def
      ExecCopySlotHeapTuple_def HeapTupleHasExternal_def toast_flatten_tuple_def
      ExecForceStoreHeapTuple_def slot_getallattrs_def CStoreWriteRow_def Let_def natts_def
      example_tupdesc_def StripeRowCount_def)

text \<open>
  C2. An attempt to begin writing while a write state is open reuses the open state, also
  when that state belongs to another relation. The source asserts that the relation is the
  same, and the assertion is compiled out of a production build. At the input below a
  write state is open for the first relation and a row is inserted into the second: the
  assertion-enabled build stops at the assertion, the production build returns normally,
  appends the row to the first relation's buffer, and the flush registers it as a stripe
  of the first relation while the second relation stays empty.
\<close>

theorem write_state_of_other_relation_reused:
  "fst (cstore_init_write_state True other_rel open_state) = Inl AssertFailure
 \<and> cstore_init_write_state False other_rel open_state = (Inr (), open_state)
 \<and> fst (cstore_free_write_state
          (snd (cstore_tuple_insert False other_rel (example_slot 1 2) 0 0 None open_state))) = Inr ()
 \<and> fst (CStoreTableRowCount example_rel
          (snd (cstore_free_write_state
             (snd (cstore_tuple_insert False other_rel (example_slot 1 2) 0 0 None open_state))))) = Inr 1
 \<and> fst (CStoreTableRowCount other_rel
          (snd (cstore_free_write_state
             (snd (cstore_tuple_insert False other_rel (example_slot 1 2) 0 0 None open_state))))) = Inr 0"
  apply (simp only: insert_other_rel)
  apply (simp add: open_state_def example_write_state_def cstore_init_write_state_def Assert_def
      example_rel_def other_rel_def cstore_free_write_state_def CStoreEndWrite_def StripeRowCount_def
      FlushStripe_def FlushBlock_def EncodeBlock_def example_state_def CStoreTableRowCount_def Let_def)
  done

lemma free_none: "CStoreWriteState s = None \<Longrightarrow> cstore_free_write_state s = (Inr (), s)"
  by (simp add: cstore_free_write_state_def)

lemma free_clears: "cstore_free_write_state s = (Inr u, s1) \<Longrightarrow> CStoreWriteState s1 = None"
  by (auto simp: cstore_free_write_state_def split: option.splits prod.splits sum.splits)

text \<open>
  C4. Ending the write when no write state is open is a no-op: with \<^verbatim>\<open>CStoreWriteState\<close>
  unset, \<^verbatim>\<open>cstore_free_write_state\<close> returns without an error and leaves the state as it
  is; and after a call that flushed and cleared the write state, a second call (directly,
  through \<^verbatim>\<open>cstore_finish_bulk_insert\<close> or through the executor-end hook) returns
  without an error and leaves the whole state, the catalog's stripe lists included,
  unchanged.
\<close>

theorem free_write_state_twice:
  "(CStoreWriteState s = None \<longrightarrow> cstore_free_write_state s = (Inr (), s))
 \<and> (cstore_free_write_state s = (Inr u, s1) \<longrightarrow>
      cstore_free_write_state s1 = (Inr (), s1)
    \<and> cstore_finish_bulk_insert rel options s1 = (Inr (), s1)
    \<and> CStoreExecutorEnd None queryDesc s1 = (Inr (), s1))"
  by (auto simp: free_none cstore_finish_bulk_insert_def CStoreExecutorEnd_def standard_ExecutorEnd_def
      dest: free_clears)

lemma free_buffered_state:
  "fst (cstore_free_write_state
          (snd (cstore_tuple_insert False other_rel (example_slot 1 2) 0 0 None open_state))) = Inr ()"
  apply (simp only: insert_other_rel)
  apply (simp add: example_write_state_def example_rel_def cstore_free_write_state_def
      CStoreEndWrite_def StripeRowCount_def FlushStripe_def FlushBlock_def EncodeBlock_def
      example_state_def Let_def)
  done

theorem free_write_state_twice_witness:
  "cstore_free_write_state
     (snd (cstore_free_write_state
        (snd (cstore_tuple_insert False other_rel (example_slot 1 2) 0 0 None open_state))))
   = (Inr (),
      snd (cstore_free_write_state
        (snd (cstore_tuple_insert False other_rel (example_slot 1 2) 0 0 None open_state))))"
proof -
  let ?s = "snd (cstore_tuple_insert False other_rel (example_slot 1 2) 0 0 None open_state)"
  have "cstore_free_write_state ?s = (Inr (), snd (cstore_free_write_state ?s))"
    using free_buffered_state by (metis prod.collapse)
  with free_write_state_twice [of ?s "()" "snd (cstore_free_write_state ?s)"]
  show ?thesis by simp
qed

subsection \<open>Relation storage\<close>

text \<open>
  C3. For a relation that has a catalog entry, \<^verbatim>\<open>cstore_relation_nontransactional_truncate\<close>
  replaces the entry by one with an empty stripe list and the block row count of the
  entry it found. \<^verbatim>\<open>cstore_relation_set_new_filenode\<close> deletes the entry of the old
  relfilenode and creates, for the new relfilenode, an entry with an empty stripe list and
  the block row count of the old entry (the persistence is permanent where the build
  checks assertions, and the new relfilenode has no entry of its own yet). In both, the
  block row count is the prior one whatever the session's \<^verbatim>\<open>cstore_block_row_count\<close> is.
\<close>

theorem truncate_keeps_block_row_count:
  assumes "catalog s (relNode (rd_node rel)) = Some existing"
  shows "(\<exists>s1. cstore_relation_nontransactional_truncate rel s = (Inr (), s1)
          \<and> catalog s1 = (catalog s)(relNode (rd_node rel) \<mapsto>
               \<lparr>blockRowCount = DataFileMetadata.blockRowCount existing, stripeMetadataList = []\<rparr>))
       \<and> ((USE_ASSERT_CHECKING \<longrightarrow> persistence = RELPERSISTENCE_PERMANENT)
            \<and> (relNode newrnode = relNode (rd_node rel) \<or> catalog s (relNode newrnode) = None) \<longrightarrow>
          (\<exists>s1. cstore_relation_set_new_filenode USE_ASSERT_CHECKING rel newrnode persistence s
                  = (Inr (RecentXmin s, OldestMultiXactId s), s1)
             \<and> catalog s1 = ((catalog s)(relNode (rd_node rel) := None))(relNode newrnode \<mapsto>
               \<lparr>blockRowCount = DataFileMetadata.blockRowCount existing, stripeMetadataList = []\<rparr>)))"
  using assms
  by (auto simp: cstore_relation_nontransactional_truncate_def cstore_relation_set_new_filenode_def
      ReadDataFileMetadata_def RelationTruncate_def DeleteDataFileMetadataRowIfExists_def
      InitCStoreDataFileMetadata_def Assert_def RelationCreateStorage_def GetOldestMultiXactId_def Let_def)

theorem truncate_keeps_block_row_count_witness:
  "cstore_block_row_count loaded_state = 2
 \<and> (\<exists>s1. cstore_relation_nontransactional_truncate example_rel loaded_state = (Inr (), s1)
        \<and> catalog s1 16390 = Some \<lparr>blockRowCount = 3, stripeMetadataList = []\<rparr>)
 \<and> (\<exists>s1. cstore_relation_set_new_filenode True example_rel \<lparr>relNode = 16400\<rparr> (CHR ''p'') loaded_state
            = (Inr (700, 1), s1)
        \<and> catalog s1 16390 = None
        \<and> catalog s1 16400 = Some \<lparr>blockRowCount = 3, stripeMetadataList = []\<rparr>)"
proof -
  have h: "catalog loaded_state (relNode (rd_node example_rel)) =
             Some \<lparr>blockRowCount = 3,
                   stripeMetadataList = [\<lparr>fileOffset = 0, rowCount = 4\<rparr>, \<lparr>fileOffset = 1, rowCount = 1\<rparr>]\<rparr>"
    by (simp add: loaded_state_def example_rel_def)
  have g: "catalog loaded_state 16400 = None"
    by (simp add: loaded_state_def example_state_def)
  from truncate_keeps_block_row_count [OF h, of True "CHR ''p''" "\<lparr>relNode = 16400\<rparr>"] g
  show ?thesis
    by (auto simp: RELPERSISTENCE_PERMANENT_def example_rel_def loaded_state_def example_state_def)
qed

subsection \<open>Dropping a relation\<close>

text \<open>
  C5. Let the previously installed object access hook, if any, have returned. When the
  hook fires with \<^verbatim>\<open>OAT_DROP\<close> for a whole relation (class \<^verbatim>\<open>pg_class\<close>, \<^verbatim>\<open>subId\<close> zero)
  that uses the cstore access method, the catalog entry of its relfilenode is deleted
  and nothing else changes. A relation with another access method, or a sub-object
  (\<^verbatim>\<open>subId\<close> not zero), leaves the state as the previous hook left it.
\<close>

theorem drop_hook_deletes_metadata:
  assumes "(case prevObjectAccessHook of
              Some hook \<Rightarrow> hook access classId objectId subId arg s
            | None \<Rightarrow> (Inr (), s)) = (Inr u, sp)"
  shows "(access = OAT_DROP \<and> classId = RelationRelationId \<and> \<not> OidIsValid subId
            \<and> OidIsValid objectId \<and> relcache sp objectId = Some rel
            \<and> rd_tableam rel = GetCstoreTableAmRoutine \<longrightarrow>
          CStoreTableAMObjectAccessHook prevObjectAccessHook access classId objectId subId arg s =
            (Inr (), sp\<lparr>catalog := (catalog sp)(relNode (rd_node rel) := None)\<rparr>))
       \<and> (relcache sp objectId = Some rel \<and> rd_tableam rel \<noteq> GetCstoreTableAmRoutine \<longrightarrow>
          CStoreTableAMObjectAccessHook prevObjectAccessHook access classId objectId subId arg s = (Inr (), sp))
       \<and> (OidIsValid subId \<longrightarrow>
          CStoreTableAMObjectAccessHook prevObjectAccessHook access classId objectId subId arg s = (Inr (), sp))"
  using assms
  by (auto simp: CStoreTableAMObjectAccessHook_def IsCStoreTableAmTable_def relation_open_def
      table_open_def DeleteDataFileMetadataRowIfExists_def)

theorem drop_hook_deletes_metadata_witness:
  "CStoreTableAMObjectAccessHook None OAT_DROP 1259 16384 0 0 loaded_state =
     (Inr (), loaded_state\<lparr>catalog := (catalog loaded_state)(16390 := None)\<rparr>)
 \<and> CStoreTableAMObjectAccessHook None OAT_DROP 1259 16386 0 0 loaded_state = (Inr (), loaded_state)
 \<and> CStoreTableAMObjectAccessHook None OAT_DROP 1259 16384 2 0 loaded_state = (Inr (), loaded_state)"
proof -
  have r1: "relcache loaded_state 16384 = Some example_rel"
    and r2: "relcache loaded_state 16386 = Some heap_rel"
    by (simp_all add: loaded_state_def example_state_def)
  from drop_hook_deletes_metadata [where prevObjectAccessHook = None and access = OAT_DROP
           and classId = 1259 and objectId = 16384 and subId = 0 and arg = 0 and s = loaded_state
           and u = "()" and sp = loaded_state and rel = example_rel]
       drop_hook_deletes_metadata [where prevObjectAccessHook = None and access = OAT_DROP
           and classId = 1259 and objectId = 16386 and subId = 0 and arg = 0 and s = loaded_state
           and u = "()" and sp = loaded_state and rel = heap_rel]
       drop_hook_deletes_metadata [where prevObjectAccessHook = None and access = OAT_DROP
           and classId = 1259 and objectId = 16384 and subId = 2 and arg = 0 and s = loaded_state
           and u = "()" and sp = loaded_state and rel = example_rel] r1 r2
  show ?thesis
    by (simp add: RelationRelationId_def OidIsValid_def GetCstoreTableAmRoutine_def
        example_rel_def heap_rel_def)
qed

subsection \<open>Size estimation and visibility\<close>

lemma double_of_count_exact: "n < 2 ^ 53 \<Longrightarrow> double_of_count n = real n"
  by (simp add: double_of_count_def)

lemma bit_length_0: "bit_length 0 = 0"
  by (simp add: bit_length.simps)

lemma bit_length_1: "bit_length (Suc 0) = 1"
  by (simp add: bit_length.simps [of "Suc 0"] bit_length_0)

lemma bit_length_numeral: "bit_length (numeral k) = Suc (bit_length (numeral k div 2))"
  by (subst bit_length.simps) simp

lemma bit_length_2_53: "bit_length 9007199254740992 = 54"
  by (simp add: bit_length_numeral bit_length_0 bit_length_1)

lemma bit_length_2_53_1: "bit_length 9007199254740993 = 54"
  by (simp add: bit_length_numeral bit_length_0 bit_length_1)

lemma bit_length_2_53_3: "bit_length 9007199254740995 = 54"
  by (simp add: bit_length_numeral bit_length_0 bit_length_1)

lemma double_of_count_2_53: "double_of_count (2 ^ 53) = real (2 ^ 53)"
  by (simp add: double_of_count_def bit_length_2_53 Let_def)

lemma double_of_count_le: "n \<le> 2 ^ 53 \<Longrightarrow> double_of_count n = real n"
  using double_of_count_exact [of n] double_of_count_2_53 by (cases "n = 2 ^ 53") simp_all

text \<open>Beyond \<open>2^53\<close> the conversion rounds: \<open>2^53 + 1\<close> lies between two neighbours and
  goes to the even one, \<open>2^53 + 3\<close> goes up to \<open>2^53 + 4\<close>.\<close>

lemma double_of_count_rounds:
  "double_of_count 9007199254740993 = 9007199254740992"
  "double_of_count 9007199254740995 = 9007199254740996"
  by (simp_all add: double_of_count_def bit_length_2_53_1 bit_length_2_53_3 Let_def)

text \<open>
  C6. For a relation with a catalog entry, \<^verbatim>\<open>cstore_estimate_rel_size\<close> reports as the
  tuple count the sum of the row counts of the stripes the entry lists, converted to a
  \<^verbatim>\<open>double\<close>: the sum itself when it is at most \<open>2^53\<close>. It leaves the state unchanged,
  and the estimate is the same whatever the data region holds. With zero stripes the
  tuple count is 0.
\<close>

theorem estimate_rel_size_tuples:
  assumes "catalog s (relNode (rd_node rel)) = Some metadata"
  shows "cstore_estimate_rel_size rel s =
           (Inr \<lparr>pages = smgrnblocks_main s (relNode (rd_node rel)),
                 tuples = double_of_count (sum_list (map rowCount (stripeMetadataList metadata))),
                 allvisfrac = 1\<rparr>, s)
       \<and> fst (cstore_estimate_rel_size rel (s\<lparr>storage := anyData\<rparr>)) = fst (cstore_estimate_rel_size rel s)
       \<and> (sum_list (map rowCount (stripeMetadataList metadata)) \<le> 2 ^ 53 \<longrightarrow>
            (\<exists>est. cstore_estimate_rel_size rel s = (Inr est, s)
               \<and> tuples est = real (sum_list (map rowCount (stripeMetadataList metadata)))))
       \<and> (stripeMetadataList metadata = [] \<longrightarrow>
            (\<exists>est. cstore_estimate_rel_size rel s = (Inr est, s) \<and> tuples est = 0))"
  using assms
  by (simp add: cstore_estimate_rel_size_def CStoreTableRowCount_def double_of_count_le
      double_of_count_exact)

theorem estimate_rel_size_tuples_witness:
  "cstore_estimate_rel_size example_rel loaded_state =
     (Inr \<lparr>pages = 0, tuples = 5, allvisfrac = 1\<rparr>, loaded_state)
 \<and> (\<exists>est. cstore_estimate_rel_size other_rel loaded_state = (Inr est, loaded_state) \<and> tuples est = 0)"
proof -
  have h: "catalog loaded_state (relNode (rd_node example_rel)) =
             Some \<lparr>blockRowCount = 3,
                   stripeMetadataList = [\<lparr>fileOffset = 0, rowCount = 4\<rparr>, \<lparr>fileOffset = 1, rowCount = 1\<rparr>]\<rparr>"
    by (simp add: loaded_state_def example_rel_def)
  have g: "catalog loaded_state (relNode (rd_node other_rel)) =
             Some \<lparr>blockRowCount = 2, stripeMetadataList = []\<rparr>"
    by (simp add: loaded_state_def example_state_def other_rel_def)
  from estimate_rel_size_tuples [OF h] estimate_rel_size_tuples [OF g]
  show ?thesis
    by (simp add: loaded_state_def example_state_def example_rel_def double_of_count_exact)
qed

lemma estimate_allvis: "cstore_estimate_rel_size rel s = (Inr est, s1) \<Longrightarrow> allvisfrac est = 1"
  by (auto simp: cstore_estimate_rel_size_def Let_def split: prod.splits sum.splits)

text \<open>
  C8. \<^verbatim>\<open>cstore_tuple_satisfies_snapshot\<close> returns true for every relation, slot and
  snapshot, and every estimate \<^verbatim>\<open>cstore_estimate_rel_size\<close> returns has the all-visible
  fraction 1.
\<close>

theorem every_tuple_visible:
  "cstore_tuple_satisfies_snapshot rel slot snapshot = True
 \<and> (\<forall>est s1. cstore_estimate_rel_size rel s = (Inr est, s1) \<longrightarrow> allvisfrac est = 1)"
  by (simp add: cstore_tuple_satisfies_snapshot_def estimate_allvis)

theorem every_tuple_visible_witness:
  "cstore_tuple_satisfies_snapshot example_rel (example_slot 1 2) 7
 \<and> (\<exists>est s1. cstore_estimate_rel_size example_rel loaded_state = (Inr est, s1) \<and> allvisfrac est = 1)"
  using every_tuple_visible [of example_rel "example_slot 1 2" 7 loaded_state]
  by (simp add: cstore_estimate_rel_size_def CStoreTableRowCount_def example_rel_def loaded_state_def)

subsection \<open>Unsupported operations\<close>

text \<open>
  C7. \<^verbatim>\<open>cstore_tuple_delete\<close> and \<^verbatim>\<open>cstore_tuple_update\<close> raise an error for every input,
  return no result, and leave the state (write state, catalog and data region) as it was.
\<close>

theorem tuple_delete_update_not_implemented:
  "cstore_tuple_delete rel tid cid snapshot crosscheck wait tmfd changingPart s =
      (Inl (ElogError ''cstore_tuple_delete not implemented''), s)
 \<and> cstore_tuple_update rel otid slot cid snapshot crosscheck wait tmfd lockmode update_indexes s =
      (Inl (ElogError ''cstore_tuple_update not implemented''), s)"
  by (simp add: cstore_tuple_delete_def cstore_tuple_update_def)

subsection \<open>The column list of a scan\<close>

lemma foldl_columns:
  "foldl (\<lambda>columnList i. if p i then columnList else columnList @ [g i]) acc xs
     = acc @ map g (filter (\<lambda>i. \<not> p i) xs)"
  by (induction xs arbitrary: acc) auto

lemma RelationColumnList_eq:
  "RelationColumnList rel =
     map (\<lambda>i. makeVar 0 (word_of_nat (i + 1)) (atttypid (attrs (rd_att rel) ! i)) 0 0 0)
         (filter (\<lambda>i. \<not> attisdropped (attrs (rd_att rel) ! i)) [0..<natts (rd_att rel)])"
  by (simp add: RelationColumnList_def RelationGetDescr_def Let_def foldl_columns)

lemma sint_attno:
  assumes "i < 32767"
  shows "sint (word_of_nat (i + 1) :: 16 word) = int i + 1"
proof -
  have "(word_of_nat (i + 1) :: 16 word) = word_of_int (int i + 1)"
    by simp
  then have "sint (word_of_nat (i + 1) :: 16 word) = (int i + 1 + 2 ^ 15) mod 2 ^ 16 - 2 ^ 15"
    by (simp only: int_word_sint) simp
  also have "\<dots> = int i + 1"
    using assms by simp
  finally show ?thesis .
qed

lemma varattno_RelationColumnList:
  assumes "natts (rd_att rel) \<le> 32767"
  shows "map (\<lambda>v. sint (varattno v)) (RelationColumnList rel) =
         map (\<lambda>i. int i + 1) (filter (\<lambda>i. \<not> attisdropped (attrs (rd_att rel) ! i)) [0..<natts (rd_att rel)])"
proof -
  have "\<And>i. i < natts (rd_att rel) \<Longrightarrow>
          sint (varattno (makeVar 0 (word_of_nat (i + 1)) (atttypid (attrs (rd_att rel) ! i)) 0 0 0)) = int i + 1"
    using assms by (simp only: makeVar_def Var.simps) (rule sint_attno, simp)
  then show ?thesis
    by (simp only: RelationColumnList_eq map_map o_def) (rule map_cong, simp_all)
qed

lemma column_requested_RelationColumnList:
  assumes "natts (rd_att rel) \<le> 32767" and "c < natts (rd_att rel)"
  shows "column_requested (RelationColumnList rel) c = (\<not> attisdropped (attrs (rd_att rel) ! c))"
proof -
  have "column_requested (RelationColumnList rel) c
          = (int c + 1 \<in> set (map (\<lambda>v. sint (varattno v)) (RelationColumnList rel)))"
    unfolding column_requested_def list_ex_iff set_map image_iff by metis
  also have "\<dots> = (int c + 1 \<in> (\<lambda>i. int i + 1) ` {i. i < natts (rd_att rel) \<and> \<not> attisdropped (attrs (rd_att rel) ! i)})"
    using assms(1) by (simp only: varattno_RelationColumnList) auto
  also have "\<dots> = (\<not> attisdropped (attrs (rd_att rel) ! c))"
    using assms(2) by auto
  finally show ?thesis .
qed

lemma beginscan_eq:
  "cstore_beginscan rel snapshot nkeys key parallel_scan flags s =
     (case CStoreBeginRead rel (rd_att rel) (RelationColumnList rel) [] s of
        (Inl e, s1) \<Rightarrow> (Inl e, s1)
      | (Inr readState, s1) \<Rightarrow>
          (Inr \<lparr>cs_base = \<lparr>rs_rd = rel, rs_snapshot = snapshot, rs_nkeys = nkeys, rs_key = key,
                            rs_flags = flags, rs_parallel = parallel_scan\<rparr>,
                cs_readState = Some readState\<rparr>, s1))"
  by (simp add: cstore_beginscan_def Let_def)

text \<open>
  C10. \<^verbatim>\<open>cstore_beginscan\<close> hands \<^verbatim>\<open>CStoreBeginRead\<close> the relation, its descriptor, the
  list \<^verbatim>\<open>RelationColumnList\<close> builds and no qualification, and the read state of the scan
  holds that list and an empty qualification list. The list has one variable for each
  attribute that is not dropped, in the order of the attributes, with the attribute's
  type; for a descriptor of at most 32767 attributes (the range of an attribute number)
  the attribute numbers are the positions counted from 1, so a column is requested
  exactly when it is not dropped.
\<close>

theorem beginscan_full_column_list:
  "cstore_beginscan rel snapshot nkeys key parallel_scan flags s =
     (case CStoreBeginRead rel (rd_att rel) (RelationColumnList rel) [] s of
        (Inl e, s1) \<Rightarrow> (Inl e, s1)
      | (Inr readState, s1) \<Rightarrow>
          (Inr \<lparr>cs_base = \<lparr>rs_rd = rel, rs_snapshot = snapshot, rs_nkeys = nkeys, rs_key = key,
                            rs_flags = flags, rs_parallel = parallel_scan\<rparr>,
                cs_readState = Some readState\<rparr>, s1))
 \<and> (\<forall>scan s1. cstore_beginscan rel snapshot nkeys key parallel_scan flags s = (Inr scan, s1) \<longrightarrow>
       (\<exists>readState. cs_readState scan = Some readState
          \<and> projectedColumnList readState = RelationColumnList rel
          \<and> whereClauseList readState = []))
 \<and> RelationColumnList rel =
     map (\<lambda>i. makeVar 0 (word_of_nat (i + 1)) (atttypid (attrs (rd_att rel) ! i)) 0 0 0)
         (filter (\<lambda>i. \<not> attisdropped (attrs (rd_att rel) ! i)) [0..<natts (rd_att rel)])
 \<and> (natts (rd_att rel) \<le> 32767 \<longrightarrow>
       map (\<lambda>v. sint (varattno v)) (RelationColumnList rel) =
       map (\<lambda>i. int i + 1) (filter (\<lambda>i. \<not> attisdropped (attrs (rd_att rel) ! i)) [0..<natts (rd_att rel)])
     \<and> (\<forall>c < natts (rd_att rel).
           column_requested (RelationColumnList rel) c = (\<not> attisdropped (attrs (rd_att rel) ! c))))"
proof (intro conjI allI impI)
  show "cstore_beginscan rel snapshot nkeys key parallel_scan flags s =
     (case CStoreBeginRead rel (rd_att rel) (RelationColumnList rel) [] s of
        (Inl e, s1) \<Rightarrow> (Inl e, s1)
      | (Inr readState, s1) \<Rightarrow>
          (Inr \<lparr>cs_base = \<lparr>rs_rd = rel, rs_snapshot = snapshot, rs_nkeys = nkeys, rs_key = key,
                            rs_flags = flags, rs_parallel = parallel_scan\<rparr>,
                cs_readState = Some readState\<rparr>, s1))"
    by (rule beginscan_eq)
next
  fix scan s1
  assume "cstore_beginscan rel snapshot nkeys key parallel_scan flags s = (Inr scan, s1)"
  then show "\<exists>readState. cs_readState scan = Some readState
          \<and> projectedColumnList readState = RelationColumnList rel
          \<and> whereClauseList readState = []"
    by (auto simp: beginscan_eq CStoreBeginRead_def split: option.splits)
next
  show "RelationColumnList rel =
     map (\<lambda>i. makeVar 0 (word_of_nat (i + 1)) (atttypid (attrs (rd_att rel) ! i)) 0 0 0)
         (filter (\<lambda>i. \<not> attisdropped (attrs (rd_att rel) ! i)) [0..<natts (rd_att rel)])"
    by (rule RelationColumnList_eq)
next
  assume "natts (rd_att rel) \<le> 32767"
  then show "map (\<lambda>v. sint (varattno v)) (RelationColumnList rel) =
       map (\<lambda>i. int i + 1) (filter (\<lambda>i. \<not> attisdropped (attrs (rd_att rel) ! i)) [0..<natts (rd_att rel)])"
    by (rule varattno_RelationColumnList)
next
  fix c
  assume "natts (rd_att rel) \<le> 32767" and "c < natts (rd_att rel)"
  then show "column_requested (RelationColumnList rel) c = (\<not> attisdropped (attrs (rd_att rel) ! c))"
    by (rule column_requested_RelationColumnList)
qed

lemma example_natts: "natts (rd_att example_rel) = 3"
  by (simp add: natts_def example_rel_def example_tupdesc_def)

lemma upt_3: "[0..<3] = [0, 1, 2]"
  by (simp add: upt_rec)

lemma example_columns:
  "filter (\<lambda>i. \<not> attisdropped (attrs (rd_att example_rel) ! i)) [0..<natts (rd_att example_rel)] = [0, 2]"
  by (simp add: example_natts upt_3) (simp add: example_rel_def example_tupdesc_def)

theorem beginscan_full_column_list_witness:
  "(\<exists>scan readState. cstore_beginscan example_rel 7 0 0 None 0 loaded_state = (Inr scan, loaded_state)
      \<and> cs_readState scan = Some readState
      \<and> projectedColumnList readState = RelationColumnList example_rel
      \<and> whereClauseList readState = [])
 \<and> map (\<lambda>v. sint (varattno v)) (RelationColumnList example_rel) = [1, 3]
 \<and> map vartype (RelationColumnList example_rel) = [23, 25]
 \<and> column_requested (RelationColumnList example_rel) 0
 \<and> \<not> column_requested (RelationColumnList example_rel) 1
 \<and> column_requested (RelationColumnList example_rel) 2"
proof -
  note T = beginscan_full_column_list [of example_rel 7 0 0 None 0 loaded_state]
  have b: "natts (rd_att example_rel) \<le> 32767"
    by (simp add: example_natts)
  obtain scan where r: "cstore_beginscan example_rel 7 0 0 None 0 loaded_state = (Inr scan, loaded_state)"
    by (simp add: beginscan_eq CStoreBeginRead_def loaded_state_def example_rel_def)
  from T r have A: "\<exists>readState. cs_readState scan = Some readState
          \<and> projectedColumnList readState = RelationColumnList example_rel
          \<and> whereClauseList readState = []"
    by blast
  from T [THEN conjunct2, THEN conjunct2, THEN conjunct1]
  have L: "RelationColumnList example_rel =
     map (\<lambda>i. makeVar 0 (word_of_nat (i + 1)) (atttypid (attrs (rd_att example_rel) ! i)) 0 0 0) [0, 2]"
    by (simp only: example_columns)
  note T4 = T [THEN conjunct2, THEN conjunct2, THEN conjunct2, THEN mp, OF b]
  from T4 [THEN conjunct1]
  have M: "map (\<lambda>v. sint (varattno v)) (RelationColumnList example_rel) = map (\<lambda>i. int i + 1) [0, 2]"
    by (simp only: example_columns)
  from T4 [THEN conjunct2]
  have C: "\<forall>c < 3. column_requested (RelationColumnList example_rel) c
                       = (\<not> attisdropped (attrs (rd_att example_rel) ! c))"
    by (simp only: example_natts)
  have V: "map vartype (RelationColumnList example_rel) = [23, 25]"
    by (simp add: L makeVar_def) (simp add: example_rel_def example_tupdesc_def)
  have C0: "column_requested (RelationColumnList example_rel) 0"
    and C1: "\<not> column_requested (RelationColumnList example_rel) 1"
    and C2: "column_requested (RelationColumnList example_rel) 2"
    using C by (simp_all add: example_rel_def example_tupdesc_def)
  from r A M V C0 C1 C2 show ?thesis
    by auto
qed

subsection \<open>Inserting rows\<close>

lemma FlushBlock_relation: "relation (FlushBlock cz ws) = relation ws"
  by (simp add: FlushBlock_def)

lemma FlushStripe_frame:
  "FlushStripe ws s = (Inr ws1, s1) \<Longrightarrow> relation ws1 = relation ws \<and> CStoreWriteState s1 = CStoreWriteState s"
  by (auto simp: FlushStripe_def Let_def FlushBlock_relation split: option.splits if_splits)

lemma CStoreWriteRow_frame:
  "CStoreWriteRow ws v n s = (Inr ws1, s1) \<Longrightarrow> relation ws1 = relation ws \<and> CStoreWriteState s1 = CStoreWriteState s"
  by (auto simp: CStoreWriteRow_def Let_def FlushBlock_relation dest: FlushStripe_frame split: if_splits)

lemma write_open_after_row:
  "write_open a rel s \<Longrightarrow> CStoreWriteState s = Some ws \<Longrightarrow> CStoreWriteRow ws v n s = (Inr ws1, s1)
     \<Longrightarrow> write_open a rel (s1\<lparr>CStoreWriteState := Some ws1\<rparr>)"
  by (auto simp: write_open_def dest: CStoreWriteRow_frame)

lemma tuple_insert_open:
  assumes "write_open a rel s"
  shows "cstore_tuple_insert a rel slot cid options bistate s =
     (case CStoreWriteState s of
        None \<Rightarrow> (Inl NullPointer, s)
      | Some ws \<Rightarrow>
          (case CStoreWriteRow ws (tts_values (prepared_slot s slot)) (tts_isnull (prepared_slot s slot)) s of
             (Inl e, s2) \<Rightarrow> (Inl e, s2)
           | (Inr ws1, s2) \<Rightarrow> (Inr (prepared_slot s slot), s2\<lparr>CStoreWriteState := Some ws1\<rparr>)))"
  unfolding cstore_tuple_insert_def prepared_slot_def Let_def
  by (simp add: init_write_open [OF assms])

lemma multi_insert_loop_step:
  assumes "k < length slots"
  shows "cstore_multi_insert_loop slots (int (length slots)) (int k) s =
     (case CStoreWriteState s of
        None \<Rightarrow> (Inl NullPointer, s)
      | Some ws \<Rightarrow>
          (case CStoreWriteRow ws (tts_values (prepared_slot s (slots ! k)))
                  (tts_isnull (prepared_slot s (slots ! k))) s of
             (Inl e, s1) \<Rightarrow> (Inl e, s1)
           | (Inr ws1, s1) \<Rightarrow>
               cstore_multi_insert_loop (slots[k := prepared_slot s (slots ! k)]) (int (length slots))
                 (int k + 1) (s1\<lparr>CStoreWriteState := Some ws1\<rparr>)))"
  apply (subst cstore_multi_insert_loop.simps)
  unfolding prepared_slot_def Let_def
  using assms by (simp split: option.splits prod.splits sum.splits)

lemma multi_insert_loop_done:
  "cstore_multi_insert_loop slots (int (length slots)) (int (length slots)) s = (Inr slots, s)"
  by (subst cstore_multi_insert_loop.simps) simp

text \<open>From position \<open>k\<close> on, the loop does what successive single inserts of the remaining
  slots do.\<close>

lemma multi_insert_loop_eq:
  assumes "write_open a rel s" and "k \<le> length slots"
  shows "cstore_multi_insert_loop slots (int (length slots)) (int k) s =
     (case tuple_insert_each a rel (drop k slots) cid options bistate s of
        (Inl e, s1) \<Rightarrow> (Inl e, s1)
      | (Inr rest, s1) \<Rightarrow> (Inr (take k slots @ rest), s1))"
  using assms
proof (induction "length slots - k" arbitrary: slots k s)
  case 0
  then have "k = length slots" by simp
  then show ?case
    by (simp add: multi_insert_loop_done)
next
  case (Suc m)
  then have k: "k < length slots" by simp
  obtain ws where ws: "CStoreWriteState s = Some ws"
    using Suc.prems(1) by (auto simp: write_open_def)
  define slot2 where "slot2 = prepared_slot s (slots ! k)"
  have dropk: "drop k slots = slots ! k # drop (Suc k) slots"
    using k by (simp add: Cons_nth_drop_Suc)
  show ?case
  proof (cases "CStoreWriteRow ws (tts_values slot2) (tts_isnull slot2) s")
    case (Pair r s1)
    show ?thesis
    proof (cases r)
      case (Inl e)
      then show ?thesis
        using Pair ws
        by (simp add: multi_insert_loop_step [OF k] dropk tuple_insert_open [OF Suc.prems(1)]
            slot2_def [symmetric])
    next
      case (Inr ws1)
      have open1: "write_open a rel (s1\<lparr>CStoreWriteState := Some ws1\<rparr>)"
        using write_open_after_row [OF Suc.prems(1) ws] Pair Inr by simp
      have IH: "cstore_multi_insert_loop (slots[k := slot2]) (int (length slots)) (int k + 1)
                  (s1\<lparr>CStoreWriteState := Some ws1\<rparr>) =
         (case tuple_insert_each a rel (drop (Suc k) slots) cid options bistate
                 (s1\<lparr>CStoreWriteState := Some ws1\<rparr>) of
            (Inl e, s2) \<Rightarrow> (Inl e, s2)
          | (Inr rest, s2) \<Rightarrow> (Inr (take k slots @ slot2 # rest), s2))"
        using Suc.hyps(1) [of "slots[k := slot2]" "Suc k" "s1\<lparr>CStoreWriteState := Some ws1\<rparr>"]
              Suc.hyps(2) open1 k
        by (simp add: take_Suc_conv_app_nth add.commute split: prod.splits sum.splits)
      have "cstore_multi_insert_loop slots (int (length slots)) (int k) s =
            cstore_multi_insert_loop (slots[k := slot2]) (int (length slots)) (int k + 1)
                  (s1\<lparr>CStoreWriteState := Some ws1\<rparr>)"
        using Pair Inr ws
        by (simp add: multi_insert_loop_step [OF k] slot2_def [symmetric])
      also note IH
      finally show ?thesis
        using Pair Inr ws
        by (simp add: dropk tuple_insert_open [OF Suc.prems(1)] slot2_def [symmetric]
            split: prod.splits sum.splits)
    qed
  qed
qed

lemma multi_insert_eq:
  assumes "ntuples = int (length slots)"
  shows "cstore_multi_insert a rel slots ntuples cid options bistate s =
     (case cstore_init_write_state a rel s of
        (Inl e, s1) \<Rightarrow> (Inl e, s1)
      | (Inr u, s1) \<Rightarrow> tuple_insert_each a rel slots cid options bistate s1)"
proof (cases "cstore_init_write_state a rel s")
  case (Pair r s1)
  show ?thesis
  proof (cases r)
    case (Inl e)
    then show ?thesis using Pair by (simp add: cstore_multi_insert_def)
  next
    case (Inr u)
    then have "write_open a rel s1" using Pair init_result_open by blast
    from multi_insert_loop_eq [OF this, of 0 slots cid options bistate]
    show ?thesis using Pair Inr assms
      by (simp add: cstore_multi_insert_def split: prod.splits sum.splits)
  qed
qed

lemma tuple_insert_after_init:
  "cstore_tuple_insert a rel slot cid options bistate s =
     (case cstore_init_write_state a rel s of
        (Inl e, s1) \<Rightarrow> (Inl e, s1)
      | (Inr u, s1) \<Rightarrow> cstore_tuple_insert a rel slot cid options bistate s1)"
proof (cases "cstore_init_write_state a rel s")
  case (Pair r s1)
  show ?thesis
  proof (cases r)
    case (Inl e)
    then show ?thesis using Pair by (simp add: cstore_tuple_insert_def)
  next
    case (Inr u)
    then have "write_open a rel s1" using Pair init_result_open by blast
    then have "cstore_init_write_state a rel s1 = (Inr (), s1)" by (rule init_write_open)
    then show ?thesis using Pair Inr by (simp add: cstore_tuple_insert_def)
  qed
qed

lemma tuple_insert_each_after_init:
  assumes "slots \<noteq> []"
  shows "(case cstore_init_write_state a rel s of
        (Inl e, s1) \<Rightarrow> (Inl e, s1)
      | (Inr u, s1) \<Rightarrow> tuple_insert_each a rel slots cid options bistate s1)
     = tuple_insert_each a rel slots cid options bistate s"
proof -
  obtain slot rest where "slots = slot # rest" using assms by (cases slots) auto
  then show ?thesis
    by (simp add: tuple_insert_after_init [of a rel slot cid options bistate s]
        split: prod.splits sum.splits)
qed

text \<open>
  C9. For a list of \<open>n\<close> slots, \<^verbatim>\<open>cstore_multi_insert\<close> is \<^verbatim>\<open>cstore_init_write_state\<close>
  followed by \<open>n\<close> successive calls of \<^verbatim>\<open>cstore_tuple_insert\<close> on the slots in order:
  the same outcome, the same slots after detoasting, the same state, hence the same rows
  handed to \<^verbatim>\<open>CStoreWriteRow\<close> in the same order. For \<open>n > 0\<close> the leading
  initialisation is the one the first single insert does itself, and the two paths are
  equal; for \<open>n = 0\<close> neither writes a row, and \<^verbatim>\<open>cstore_multi_insert\<close> still opens the
  write state.
\<close>

theorem multi_insert_as_tuple_inserts:
  assumes "ntuples = int (length slots)"
  shows "cstore_multi_insert a rel slots ntuples cid options bistate s =
     (case cstore_init_write_state a rel s of
        (Inl e, s1) \<Rightarrow> (Inl e, s1)
      | (Inr u, s1) \<Rightarrow> tuple_insert_each a rel slots cid options bistate s1)
   \<and> (slots \<noteq> [] \<longrightarrow>
        cstore_multi_insert a rel slots ntuples cid options bistate s =
        tuple_insert_each a rel slots cid options bistate s)"
  using multi_insert_eq [OF assms] tuple_insert_each_after_init by simp

theorem multi_insert_as_tuple_inserts_witness:
  "cstore_multi_insert True example_rel [example_slot 1 2, example_slot 3 4] 2 0 0 None example_state =
   tuple_insert_each True example_rel [example_slot 1 2, example_slot 3 4] 0 0 None example_state"
proof -
  have n: "(2::int) = int (length [example_slot 1 2, example_slot 3 4])"
    by simp
  have ne: "[example_slot 1 2, example_slot 3 4] \<noteq> []"
    by simp
  from multi_insert_as_tuple_inserts [OF n, of True example_rel 0 0 None example_state] ne
  show ?thesis by blast
qed

subsection \<open>Encoding and decoding blocks\<close>

lemma fill_values_encoded:
  "fill_values (map (\<lambda>c. \<not> snd c) cells) (map fst (filter (\<lambda>c. \<not> snd c) cells))
     = Some (map (stored_cell True) cells)"
  by (induction cells) (auto simp: stored_cell_def)

lemma codec_roundtrip:
  "codec_ok kind cz dz \<Longrightarrow> codec_decode dz kind (codec_encode cz kind raw) (length raw) = Inr raw"
  by (cases kind) (simp_all add: codec_ok_def codec_decode_def codec_encode_def)

lemma count_exists:
  "length (filter (\<lambda>e. e) (map (\<lambda>c. \<not> snd c) cells)) = length (map fst (filter (\<lambda>c. \<not> snd c) cells))"
  by (simp add: filter_map o_def)

lemma DecodeColumnBlock_Encode:
  assumes "codec_ok kind cz dz"
  shows "DecodeColumnBlock dz (EncodeColumnBlock cz kind cells) = Inr (map (stored_cell True) cells)"
proof -
  have "codec_decode dz kind (codec_encode cz kind (map fst (filter (\<lambda>c. \<not> snd c) cells)))
          (length (filter (\<lambda>e. e) (map (\<lambda>c. \<not> snd c) cells)))
        = Inr (map fst (filter (\<lambda>c. \<not> snd c) cells))"
    by (simp only: count_exists codec_roundtrip [OF assms])
  then show ?thesis
    by (simp add: DecodeColumnBlock_def EncodeColumnBlock_def fill_values_encoded)
qed

lemma DecodeBlockColumn_Encode:
  assumes "codec_ok kind cz dz" and "c < n"
  shows "DecodeBlockColumn dz projected (EncodeBlock cz kind n rows) c
           = Inr (map (stored_cell (column_requested projected c)) (column_cells c rows))"
proof (cases "column_requested projected c")
  case True
  then show ?thesis
    using assms
    by (simp add: DecodeBlockColumn_def EncodeBlock_def DecodeColumnBlock_Encode column_cells_def)
next
  case False
  have "\<And>cell. stored_cell False cell = (Plain 0, True)"
    by (simp add: stored_cell_def)
  then have "map (stored_cell False) (column_cells c rows) = replicate (length rows) (Plain 0, True)"
    by (intro nth_equalityI) (simp_all add: column_cells_def)
  with False show ?thesis
    by (simp add: DecodeBlockColumn_def EncodeBlock_def)
qed

lemma collect_results_map:
  "(\<And>x. x \<in> set xs \<Longrightarrow> f x = Inr (g x)) \<Longrightarrow> collect_results (map f xs) = Inr (map g xs)"
  by (induction xs) auto

lemma DecodeBlock_Encode:
  assumes "codec_ok kind cz dz"
  shows "DecodeBlock dz projected n (EncodeBlock cz kind n rows) = Inr (map (stored_row projected n) rows)"
proof -
  let ?col = "\<lambda>c. map (stored_cell (column_requested projected c)) (column_cells c rows)"
  have cols: "collect_results (map (DecodeBlockColumn dz projected (EncodeBlock cz kind n rows)) [0..<n])
                = Inr (map ?col [0..<n])"
    by (rule collect_results_map) (simp add: DecodeBlockColumn_Encode [OF assms])
  have "map (\<lambda>i. (map (\<lambda>col. fst (col ! i)) (map ?col [0..<n]),
                  map (\<lambda>col. snd (col ! i)) (map ?col [0..<n]))) [0..<length rows]
        = map (\<lambda>i. stored_row projected n (rows ! i)) [0..<length rows]"
    by (rule map_cong) (simp_all add: stored_row_def column_cells_def o_def)
  also have "\<dots> = map (stored_row projected n) rows"
    by (rule nth_equalityI) simp_all
  finally show ?thesis
    using cols by (simp add: DecodeBlock_def) (simp add: EncodeBlock_def)
qed

lemma DecodeBlock_length:
  "DecodeBlock dz projected n sb = Inr rows \<Longrightarrow> length rows = sb_rowCount sb"
  by (auto simp: DecodeBlock_def split: if_splits sum.splits)

lemma decode_blocks_length:
  "decode_blocks dz projected n blocks = Inr rows \<Longrightarrow> length rows = sum_list (map sb_rowCount blocks)"
  by (induction blocks arbitrary: rows) (auto split: sum.splits dest: DecodeBlock_length)

lemma decode_blocks_append:
  "decode_blocks dz projected n blocks = Inr R \<Longrightarrow> DecodeBlock dz projected n sb = Inr rows
     \<Longrightarrow> decode_blocks dz projected n (blocks @ [sb]) = Inr (R @ rows)"
  by (induction blocks arbitrary: R) (auto split: sum.splits)

lemma LoadStripe_append:
  "LoadStripe file stripe = Inr blocks \<Longrightarrow> LoadStripe (file @ extra) stripe = Inr blocks"
  by (auto simp: LoadStripe_def Let_def nth_append split: if_splits)

lemma decode_stripes_file_append:
  "decode_stripes dz projected n file stripes = Inr R
     \<Longrightarrow> decode_stripes dz projected n (file @ extra) stripes = Inr R"
  by (induction stripes arbitrary: R) (auto split: sum.splits simp: LoadStripe_append)

lemma decode_stripes_append:
  "decode_stripes dz projected n file stripes = Inr R \<Longrightarrow> LoadStripe file stripe = Inr blocks
     \<Longrightarrow> decode_blocks dz projected n blocks = Inr rows
     \<Longrightarrow> decode_stripes dz projected n file (stripes @ [stripe]) = Inr (R @ rows)"
  by (induction stripes arbitrary: R) (auto split: sum.splits)

subsection \<open>The write path keeps every row\<close>

lemma same_host_refl: "same_host s s"
  by (simp add: same_host_def)

lemma same_host_trans: "same_host s s1 \<Longrightarrow> same_host s1 s2 \<Longrightarrow> same_host s s2"
  by (simp add: same_host_def)

lemma FlushBlock_inv:
  assumes "write_inv dz projected rel s ws R"
  shows "write_inv dz projected rel s (FlushBlock (pglz_compress s) ws) R"
proof -
  let ?n = "natts (rd_att rel)"
  from assms obtain metadata dataFile R1 R2 where
    f: "relation ws = rel" "ws_tupleDescriptor ws = rd_att rel" "pglz_decompress s = dz"
       "codec_ok (ws_compressionType ws) (pglz_compress s) dz"
       "catalog s (relNode (rd_node rel)) = Some metadata"
       "storage s (relNode (rd_node rel)) = Some dataFile"
       "decode_stripes dz projected ?n dataFile (stripeMetadataList metadata) = Inr R1"
       "decode_blocks dz projected ?n (ws_stripeBlocks ws) = Inr R2"
       "R = R1 @ R2 @ map (stored_row projected ?n) (ws_blockBuffer ws)"
    unfolding write_inv_def by blast
  have "decode_blocks dz projected ?n
          (ws_stripeBlocks ws @ [EncodeBlock (pglz_compress s) (ws_compressionType ws) ?n (ws_blockBuffer ws)])
        = Inr (R2 @ map (stored_row projected ?n) (ws_blockBuffer ws))"
    using f(8) DecodeBlock_Encode [OF f(4)] by (rule decode_blocks_append)
  then show ?thesis
    unfolding write_inv_def using f by (simp add: FlushBlock_def)
qed

lemma FlushBlock_buffer: "ws_blockBuffer (FlushBlock cz ws) = []"
  by (simp add: FlushBlock_def)

lemma FlushStripe_inv:
  assumes "write_inv dz projected rel s ws R"
  shows "\<exists>ws1 s1. FlushStripe ws s = (Inr ws1, s1) \<and> write_inv dz projected rel s1 ws1 R
           \<and> ws_stripeBlocks ws1 = [] \<and> ws_blockBuffer ws1 = [] \<and> same_host s s1"
proof -
  let ?n = "natts (rd_att rel)"
  define wsf where "wsf = (if ws_blockBuffer ws \<noteq> [] then FlushBlock (pglz_compress s) ws else ws)"
  have inv: "write_inv dz projected rel s wsf R"
    using assms FlushBlock_inv by (simp add: wsf_def)
  have buf: "ws_blockBuffer wsf = []"
    by (simp add: wsf_def FlushBlock_buffer)
  from inv obtain metadata dataFile R1 R2 where
    f: "relation wsf = rel" "ws_tupleDescriptor wsf = rd_att rel" "pglz_decompress s = dz"
       "codec_ok (ws_compressionType wsf) (pglz_compress s) dz"
       "catalog s (relNode (rd_node rel)) = Some metadata"
       "storage s (relNode (rd_node rel)) = Some dataFile"
       "decode_stripes dz projected ?n dataFile (stripeMetadataList metadata) = Inr R1"
       "decode_blocks dz projected ?n (ws_stripeBlocks wsf) = Inr R2"
       "R = R1 @ R2 @ map (stored_row projected ?n) (ws_blockBuffer wsf)"
    unfolding write_inv_def by blast
  define stripe where "stripe = \<lparr>fileOffset = length dataFile,
                                  rowCount = sum_list (map sb_rowCount (ws_stripeBlocks wsf))\<rparr>"
  define dataFile1 where "dataFile1 = dataFile @ [ws_stripeBlocks wsf]"
  define s1 where "s1 = s\<lparr>storage := (storage s)(relNode (rd_node rel) \<mapsto> dataFile1),
                          catalog := (catalog s)(relNode (rd_node rel) \<mapsto>
                             metadata\<lparr>stripeMetadataList := stripeMetadataList metadata @ [stripe]\<rparr>)\<rparr>"
  have run: "FlushStripe ws s = (Inr (wsf\<lparr>ws_stripeBlocks := []\<rparr>), s1)"
    using f(1,5,6)
    by (simp add: FlushStripe_def Let_def wsf_def [symmetric] s1_def dataFile1_def stripe_def)
  have load: "LoadStripe dataFile1 stripe = Inr (ws_stripeBlocks wsf)"
    by (simp add: LoadStripe_def dataFile1_def stripe_def)
  have "decode_stripes dz projected ?n dataFile1 (stripeMetadataList metadata) = Inr R1"
    unfolding dataFile1_def using f(7) by (rule decode_stripes_file_append)
  then have dec: "decode_stripes dz projected ?n dataFile1 (stripeMetadataList metadata @ [stripe]) = Inr (R1 @ R2)"
    using load f(8) by (rule decode_stripes_append)
  have "write_inv dz projected rel s1 (wsf\<lparr>ws_stripeBlocks := []\<rparr>) R"
    unfolding write_inv_def using f(1-4,9) buf dec by (simp add: s1_def)
  moreover have "same_host s s1"
    by (simp add: same_host_def s1_def)
  ultimately show ?thesis
    using run buf by simp
qed

lemma CStoreWriteRow_inv:
  assumes "write_inv dz projected rel s ws R"
      and "length columnValues = natts (rd_att rel)" and "length columnNulls = natts (rd_att rel)"
  shows "\<exists>ws1 s1. CStoreWriteRow ws columnValues columnNulls s = (Inr ws1, s1)
           \<and> write_inv dz projected rel s1 ws1
                (R @ [stored_row projected (natts (rd_att rel)) (columnValues, columnNulls)])
           \<and> same_host s s1"
proof -
  let ?n = "natts (rd_att rel)"
  let ?R = "R @ [stored_row projected ?n (columnValues, columnNulls)]"
  define wsa where "wsa = ws\<lparr>ws_blockBuffer := ws_blockBuffer ws @ [(columnValues, columnNulls)]\<rparr>"
  define wsb where "wsb = (if ws_blockRowCount wsa \<le> length (ws_blockBuffer wsa)
                           then FlushBlock (pglz_compress s) wsa else wsa)"
  have td: "ws_tupleDescriptor ws = rd_att rel"
    using assms(1) by (simp add: write_inv_def)
  have "write_inv dz projected rel s wsa ?R"
    using assms(1) unfolding write_inv_def wsa_def by auto
  then have invb: "write_inv dz projected rel s wsb ?R"
    using FlushBlock_inv by (simp add: wsb_def)
  have run: "CStoreWriteRow ws columnValues columnNulls s =
          (if ws_stripeMaxRowCount wsb \<le> StripeRowCount wsb then FlushStripe wsb s else (Inr wsb, s))"
    using assms(2,3) td
    by (simp add: CStoreWriteRow_def Let_def wsa_def [symmetric] wsb_def [symmetric])
  show ?thesis
  proof (cases "ws_stripeMaxRowCount wsb \<le> StripeRowCount wsb")
    case True
    with run FlushStripe_inv [OF invb] show ?thesis by auto
  next
    case False
    with run invb show ?thesis by (auto simp: same_host_refl)
  qed
qed

lemma CStoreEndWrite_inv:
  assumes "write_inv dz projected rel s ws R"
  shows "\<exists>s1. CStoreEndWrite ws s = (Inr (), s1) \<and> stored_inv dz projected rel s1 R \<and> same_host s s1"
proof (cases "StripeRowCount ws = 0")
  case True
  let ?n = "natts (rd_att rel)"
  from assms obtain metadata dataFile R1 R2 where
    f: "pglz_decompress s = dz"
       "catalog s (relNode (rd_node rel)) = Some metadata"
       "storage s (relNode (rd_node rel)) = Some dataFile"
       "decode_stripes dz projected ?n dataFile (stripeMetadataList metadata) = Inr R1"
       "decode_blocks dz projected ?n (ws_stripeBlocks ws) = Inr R2"
       "R = R1 @ R2 @ map (stored_row projected ?n) (ws_blockBuffer ws)"
    unfolding write_inv_def by blast
  from True have empty: "ws_blockBuffer ws = []"
    by (simp add: StripeRowCount_def)
  from True have "sum_list (map sb_rowCount (ws_stripeBlocks ws)) = 0"
    unfolding StripeRowCount_def by linarith
  then have "length R2 = 0"
    by (simp only: decode_blocks_length [OF f(5)])
  then have "R = R1" using f(6) empty by simp
  then have "stored_inv dz projected rel s R"
    unfolding stored_inv_def using f by simp
  then show ?thesis
    using True by (simp add: CStoreEndWrite_def same_host_refl)
next
  case False
  from FlushStripe_inv [OF assms] obtain ws1 s1 where
    r: "FlushStripe ws s = (Inr ws1, s1)" "write_inv dz projected rel s1 ws1 R"
       "ws_stripeBlocks ws1 = []" "ws_blockBuffer ws1 = []" "same_host s s1"
    by blast
  have "stored_inv dz projected rel s1 R"
    using r(2,3,4) unfolding write_inv_def stored_inv_def by auto
  then show ?thesis
    using False r(1,5) by (simp add: CStoreEndWrite_def)
qed

subsection \<open>Inserts and the flush\<close>

lemma datum_value_detoast: "datum_value toast (detoast_external_attr toast v) = datum_value toast v"
  by (cases v) simp_all

lemma flattened_isnull_lists:
  "length vs = length ns \<Longrightarrow>
   map (\<lambda>d. d = None) (map (map_option f) (map (\<lambda>(v, isnull). if isnull then None else Some v) (zip vs ns))) = ns"
  by (induction vs ns rule: list_induct2) auto

lemma flattened_content_lists:
  "length vs = length ns \<Longrightarrow>
   map (\<lambda>(v, isnull). if isnull then None else Some (datum_value toast v))
     (zip (map deformed_datum (map (map_option (detoast_external_attr toast))
              (map (\<lambda>(v, isnull). if isnull then None else Some v) (zip vs ns)))) ns)
   = map (\<lambda>(v, isnull). if isnull then None else Some (datum_value toast v)) (zip vs ns)"
  by (induction vs ns rule: list_induct2) (auto simp: datum_value_detoast)

lemma flattened_isnull:
  "length (tts_values slot) = length (tts_isnull slot) \<Longrightarrow>
   map (\<lambda>d. d = None) (toast_flatten_tuple toast (ExecCopySlotHeapTuple slot) tupdesc) = tts_isnull slot"
  unfolding toast_flatten_tuple_def ExecCopySlotHeapTuple_def by (rule flattened_isnull_lists)

lemma flattened_length:
  "length (tts_values slot) = length (tts_isnull slot) \<Longrightarrow>
   length (toast_flatten_tuple toast (ExecCopySlotHeapTuple slot) tupdesc) = length (tts_values slot)"
  by (simp add: toast_flatten_tuple_def ExecCopySlotHeapTuple_def)

lemma flattened_content:
  "length (tts_values slot) = length (tts_isnull slot) \<Longrightarrow>
   map (\<lambda>(v, isnull). if isnull then None else Some (datum_value toast v))
     (zip (map deformed_datum (toast_flatten_tuple toast (ExecCopySlotHeapTuple slot) tupdesc)) (tts_isnull slot))
   = map (\<lambda>(v, isnull). if isnull then None else Some (datum_value toast v))
       (zip (tts_values slot) (tts_isnull slot))"
  unfolding toast_flatten_tuple_def ExecCopySlotHeapTuple_def by (rule flattened_content_lists)

lemma prepared_slot_isnull:
  "length (tts_values slot) = length (tts_isnull slot) \<Longrightarrow> tts_isnull (prepared_slot s slot) = tts_isnull slot"
  by (simp add: prepared_slot_def slot_getallattrs_def ExecForceStoreHeapTuple_def flattened_isnull)

lemma prepared_slot_length:
  "length (tts_values slot) = length (tts_isnull slot) \<Longrightarrow>
   length (tts_values (prepared_slot s slot)) = length (tts_values slot)"
  by (simp add: prepared_slot_def slot_getallattrs_def ExecForceStoreHeapTuple_def flattened_length)

lemma prepared_slot_content:
  assumes "length (tts_values slot) = length (tts_isnull slot)"
  shows "row_content (toast_store s) (slot_row (prepared_slot s slot)) = row_content (toast_store s) (slot_row slot)"
  using assms
  by (simp add: row_content_def slot_row_def prepared_slot_def slot_getallattrs_def
      ExecForceStoreHeapTuple_def flattened_isnull flattened_content)

lemma prepared_slot_toast:
  "toast_store s1 = toast_store s \<Longrightarrow> prepared_slot s1 slot = prepared_slot s slot"
  by (simp add: prepared_slot_def)

lemma stored_row_content:
  assumes "length vs = n" and "length ns = n"
      and "\<And>c. c < n \<Longrightarrow> \<not> column_requested projected c \<Longrightarrow> ns ! c"
  shows "row_content toast (stored_row projected n (vs, ns)) = row_content toast (vs, ns)"
  using assms
  by (intro nth_equalityI) (auto simp: row_content_def stored_row_def stored_cell_def)

lemma write_inv_upd:
  "write_inv dz projected rel (s\<lparr>CStoreWriteState := x\<rparr>) ws R = write_inv dz projected rel s ws R"
  by (simp add: write_inv_def)

lemma stored_inv_upd:
  "stored_inv dz projected rel (s\<lparr>CStoreWriteState := x\<rparr>) R = stored_inv dz projected rel s R"
  by (simp add: stored_inv_def)

lemma open_inv_write_open: "open_inv dz projected rel s R \<Longrightarrow> write_open a rel s"
  by (auto simp: open_inv_def write_open_def write_inv_def)

lemma tuple_insert_inv:
  assumes "open_inv dz projected rel s R"
      and "length (tts_values slot) = natts (rd_att rel)" and "length (tts_isnull slot) = natts (rd_att rel)"
  shows "\<exists>s1. cstore_tuple_insert a rel slot cid options bistate s = (Inr (prepared_slot s slot), s1)
           \<and> open_inv dz projected rel s1
                (R @ [stored_row projected (natts (rd_att rel)) (slot_row (prepared_slot s slot))])
           \<and> toast_store s1 = toast_store s"
proof -
  from assms(1) obtain ws where ws: "CStoreWriteState s = Some ws" "write_inv dz projected rel s ws R"
    by (auto simp: open_inv_def)
  have eq: "length (tts_values slot) = length (tts_isnull slot)"
    using assms(2,3) by simp
  have l1: "length (tts_values (prepared_slot s slot)) = natts (rd_att rel)"
    using prepared_slot_length [OF eq] assms(2) by simp
  have l2: "length (tts_isnull (prepared_slot s slot)) = natts (rd_att rel)"
    using prepared_slot_isnull [OF eq] assms(3) by simp
  from CStoreWriteRow_inv [OF ws(2) l1 l2] obtain ws1 s1 where
    r: "CStoreWriteRow ws (tts_values (prepared_slot s slot)) (tts_isnull (prepared_slot s slot)) s = (Inr ws1, s1)"
       "write_inv dz projected rel s1 ws1
          (R @ [stored_row projected (natts (rd_att rel))
                  (tts_values (prepared_slot s slot), tts_isnull (prepared_slot s slot))])"
       "same_host s s1"
    by blast
  have "cstore_tuple_insert a rel slot cid options bistate s
          = (Inr (prepared_slot s slot), s1\<lparr>CStoreWriteState := Some ws1\<rparr>)"
    using ws(1) r(1) by (simp add: tuple_insert_open [OF open_inv_write_open [OF assms(1)]])
  moreover have "open_inv dz projected rel (s1\<lparr>CStoreWriteState := Some ws1\<rparr>)
                   (R @ [stored_row projected (natts (rd_att rel)) (slot_row (prepared_slot s slot))])"
    using r(2) by (simp add: open_inv_def write_inv_upd slot_row_def)
  moreover have "toast_store (s1\<lparr>CStoreWriteState := Some ws1\<rparr>) = toast_store s"
    using r(3) by (simp add: same_host_def)
  ultimately show ?thesis by blast
qed

lemma tuple_insert_each_inv:
  assumes "open_inv dz projected rel s R"
      and "\<And>slot. slot \<in> set slots \<Longrightarrow>
             length (tts_values slot) = natts (rd_att rel) \<and> length (tts_isnull slot) = natts (rd_att rel)"
  shows "\<exists>slots1 s1. tuple_insert_each a rel slots cid options bistate s = (Inr slots1, s1)
           \<and> open_inv dz projected rel s1
                (R @ map (\<lambda>slot. stored_row projected (natts (rd_att rel)) (slot_row (prepared_slot s slot))) slots)
           \<and> toast_store s1 = toast_store s"
  using assms
proof (induction slots arbitrary: s R)
  case Nil
  then show ?case by simp
next
  case (Cons slot slots)
  let ?n = "natts (rd_att rel)"
  from tuple_insert_inv [OF Cons.prems(1), of slot a cid options bistate] Cons.prems(2)
  obtain s1 where
    a: "cstore_tuple_insert a rel slot cid options bistate s = (Inr (prepared_slot s slot), s1)"
       "open_inv dz projected rel s1 (R @ [stored_row projected ?n (slot_row (prepared_slot s slot))])"
       "toast_store s1 = toast_store s"
    by auto
  from Cons.IH [OF a(2)] Cons.prems(2)
  obtain slots1 s2 where
    b: "tuple_insert_each a rel slots cid options bistate s1 = (Inr slots1, s2)"
       "open_inv dz projected rel s2
          ((R @ [stored_row projected ?n (slot_row (prepared_slot s slot))]) @
           map (\<lambda>slot. stored_row projected ?n (slot_row (prepared_slot s1 slot))) slots)"
       "toast_store s2 = toast_store s1"
    by auto
  show ?case
    using a b by (simp add: prepared_slot_toast [OF a(3)])
qed

lemma init_write_state_inv:
  assumes "CStoreWriteState s = None"
      and "catalog s (relNode (rd_node rel)) = Some metadata" and "stripeMetadataList metadata = []"
      and "storage s (relNode (rd_node rel)) = Some dataFile"
      and "codec_ok (cstore_compression s) (pglz_compress s) (pglz_decompress s)"
  shows "\<exists>s1. cstore_init_write_state a rel s = (Inr (), s1)
           \<and> open_inv (pglz_decompress s) projected rel s1 [] \<and> toast_store s1 = toast_store s"
  using assms
  by (simp add: cstore_init_write_state_def CStoreBeginWrite_def CStoreTableAMGetOptions_def Let_def
      RelationGetDescr_def open_inv_def write_inv_def)

lemma free_write_state_inv:
  assumes "open_inv dz projected rel s R"
  shows "\<exists>s1. cstore_free_write_state s = (Inr (), s1) \<and> stored_inv dz projected rel s1 R"
proof -
  from assms obtain ws where ws: "CStoreWriteState s = Some ws" "write_inv dz projected rel s ws R"
    by (auto simp: open_inv_def)
  from CStoreEndWrite_inv [OF ws(2)] obtain s1 where
    "CStoreEndWrite ws s = (Inr (), s1)" "stored_inv dz projected rel s1 R"
    by blast
  then show ?thesis
    using ws(1) by (simp add: cstore_free_write_state_def stored_inv_upd)
qed

text \<open>Inserting the slots one by one, or all at once, and ending the write leaves exactly
  their rows in the stripes the catalog lists.\<close>

lemma insert_flush_stored:
  assumes "CStoreWriteState s = None"
      and "catalog s (relNode (rd_node rel)) = Some metadata" and "stripeMetadataList metadata = []"
      and "storage s (relNode (rd_node rel)) = Some dataFile"
      and "codec_ok (cstore_compression s) (pglz_compress s) (pglz_decompress s)"
      and "\<And>slot. slot \<in> set slots \<Longrightarrow>
             length (tts_values slot) = natts (rd_att rel) \<and> length (tts_isnull slot) = natts (rd_att rel)"
      and "inserted = tuple_insert_each a rel slots cid options bistate s
         \<or> inserted = cstore_multi_insert a rel slots (int (length slots)) cid options bistate s"
  shows "\<exists>slots1 s1 s2. inserted = (Inr slots1, s1) \<and> cstore_free_write_state s1 = (Inr (), s2)
           \<and> stored_inv (pglz_decompress s) projected rel s2
                (map (\<lambda>slot. stored_row projected (natts (rd_att rel)) (slot_row (prepared_slot s slot))) slots)"
proof -
  let ?dz = "pglz_decompress s"
  let ?R = "map (\<lambda>slot. stored_row projected (natts (rd_att rel)) (slot_row (prepared_slot s slot))) slots"
  from init_write_state_inv [OF assms(1-5), of a projected] obtain s0 where
    i: "cstore_init_write_state a rel s = (Inr (), s0)" "open_inv ?dz projected rel s0 []"
       "toast_store s0 = toast_store s"
    by blast
  from tuple_insert_each_inv [OF i(2) assms(6), of slots a cid options bistate] obtain slots1 s1 where
    e: "tuple_insert_each a rel slots cid options bistate s0 = (Inr slots1, s1)"
       "open_inv ?dz projected rel s1 ?R"
    by (auto simp: prepared_slot_toast [OF i(3)])
  from free_write_state_inv [OF e(2)] obtain s2 where
    f: "cstore_free_write_state s1 = (Inr (), s2)" "stored_inv ?dz projected rel s2 ?R"
    by blast
  have multi: "cstore_multi_insert a rel slots (int (length slots)) cid options bistate s = (Inr slots1, s1)"
    using i(1) e(1) by (simp add: multi_insert_eq)
  have single: "slots \<noteq> [] \<Longrightarrow> tuple_insert_each a rel slots cid options bistate s = (Inr slots1, s1)"
    using i(1) e(1)
          tuple_insert_each_after_init [where slots = slots and a = a and rel = rel and s = s
             and cid = cid and options = options and bistate = bistate]
    by simp
  show ?thesis
  proof (cases "inserted = cstore_multi_insert a rel slots (int (length slots)) cid options bistate s")
    case True
    with multi f show ?thesis by auto
  next
    case False
    then have ins: "inserted = tuple_insert_each a rel slots cid options bistate s"
      using assms(7) by blast
    show ?thesis
    proof (cases "slots = []")
      case True
      then have "inserted = (Inr [], s)" using ins by simp
      moreover have "cstore_free_write_state s = (Inr (), s)"
        using assms(1) by (rule free_none)
      moreover have "stored_inv ?dz projected rel s ?R"
        using True assms(2-4) by (simp add: stored_inv_def)
      ultimately show ?thesis by blast
    next
      case False
      with single ins f show ?thesis by auto
    qed
  qed
qed

subsection \<open>The read path yields the stored rows in order\<close>

lemma ReadNextBlockRow_done:
  "decode_blocks dz projected n blocks = Inr [] \<Longrightarrow> ReadNextBlockRow dz projected n blocks = Inr None"
  by (induction blocks) (auto split: sum.splits)

lemma ReadNextBlockRow_next:
  "decode_blocks dz projected n blocks = Inr (r # R) \<Longrightarrow>
   \<exists>rows rest B. ReadNextBlockRow dz projected n blocks = Inr (Some (r, rows, rest))
      \<and> decode_blocks dz projected n rest = Inr B \<and> R = rows @ B"
proof (induction blocks)
  case Nil
  then show ?case by simp
next
  case (Cons sb blocks)
  from Cons.prems obtain rows0 rest0 where
    d: "DecodeBlock dz projected n sb = Inr rows0" "decode_blocks dz projected n blocks = Inr rest0"
       "rows0 @ rest0 = r # R"
    by (auto split: sum.splits)
  show ?case
  proof (cases rows0)
    case Nil
    with d Cons.IH show ?thesis by simp
  next
    case (Cons r0 rows1)
    with d show ?thesis by simp
  qed
qed

lemma ReadNextStripeRow_done:
  "decode_stripes dz projected n dataFile stripes = Inr [] \<Longrightarrow>
   ReadNextStripeRow dz projected n dataFile stripes = Inr None"
  by (induction stripes) (auto split: sum.splits simp: ReadNextBlockRow_done)

lemma ReadNextStripeRow_next:
  "decode_stripes dz projected n dataFile stripes = Inr (r # R) \<Longrightarrow>
   \<exists>rows rest stripes1 B S. ReadNextStripeRow dz projected n dataFile stripes = Inr (Some (r, rows, rest, stripes1))
      \<and> decode_blocks dz projected n rest = Inr B
      \<and> decode_stripes dz projected n dataFile stripes1 = Inr S \<and> R = rows @ B @ S"
proof (induction stripes)
  case Nil
  then show ?case by simp
next
  case (Cons stripe stripes)
  from Cons.prems obtain blocks rows0 rest0 where
    d: "LoadStripe dataFile stripe = Inr blocks" "decode_blocks dz projected n blocks = Inr rows0"
       "decode_stripes dz projected n dataFile stripes = Inr rest0" "rows0 @ rest0 = r # R"
    by (auto split: sum.splits)
  show ?case
  proof (cases rows0)
    case Nil
    with d Cons.IH show ?thesis by (simp add: ReadNextBlockRow_done)
  next
    case (Cons r0 rows1)
    with d have "decode_blocks dz projected n blocks = Inr (r # rows1)" by simp
    from ReadNextBlockRow_next [OF this] d Cons show ?thesis by auto
  qed
qed

lemma CStoreReadNextRow_done:
  assumes "pending_rows s rs = Inr []"
  shows "\<exists>rs1. CStoreReadNextRow rs s = (Inr (None, rs1), s)"
proof -
  let ?dz = "pglz_decompress s" and ?p = "projectedColumnList rs" and ?n = "natts (rs_tupleDescriptor rs)"
  let ?f = "case storage s (relNode (rd_node (rs_relation rs))) of None \<Rightarrow> [] | Some f \<Rightarrow> f"
  from assms have "rs_blockRows rs = []" "decode_blocks ?dz ?p ?n (rs_stripeBlocks rs) = Inr []"
     "decode_stripes ?dz ?p ?n ?f (rs_stripeList rs) = Inr []"
    by (auto simp: pending_rows_def Let_def split: sum.splits)
  then show ?thesis
    by (simp add: CStoreReadNextRow_def Let_def ReadNextBlockRow_done ReadNextStripeRow_done)
qed

lemma CStoreReadNextRow_next:
  assumes "pending_rows s rs = Inr (r # R)"
  shows "\<exists>rs1. CStoreReadNextRow rs s = (Inr (Some r, rs1), s) \<and> pending_rows s rs1 = Inr R"
proof -
  let ?dz = "pglz_decompress s" and ?p = "projectedColumnList rs" and ?n = "natts (rs_tupleDescriptor rs)"
  let ?f = "case storage s (relNode (rd_node (rs_relation rs))) of None \<Rightarrow> [] | Some f \<Rightarrow> f"
  from assms obtain B S where
    d: "decode_blocks ?dz ?p ?n (rs_stripeBlocks rs) = Inr B"
       "decode_stripes ?dz ?p ?n ?f (rs_stripeList rs) = Inr S"
       "rs_blockRows rs @ B @ S = r # R"
    by (auto simp: pending_rows_def Let_def split: sum.splits)
  show ?thesis
  proof (cases "rs_blockRows rs")
    case (Cons r0 rows)
    with d show ?thesis
      by (simp add: CStoreReadNextRow_def Let_def pending_rows_def)
  next
    case Nil
    show ?thesis
    proof (cases B)
      case (Cons b0 B1)
      with d Nil have "decode_blocks ?dz ?p ?n (rs_stripeBlocks rs) = Inr (r # B1)" and R: "R = B1 @ S"
        by simp_all
      from ReadNextBlockRow_next [OF this(1)] obtain rows rest B2 where
        n: "ReadNextBlockRow ?dz ?p ?n (rs_stripeBlocks rs) = Inr (Some (r, rows, rest))"
           "decode_blocks ?dz ?p ?n rest = Inr B2" "B1 = rows @ B2"
        by blast
      with Nil d(2) R show ?thesis
        by (simp add: CStoreReadNextRow_def Let_def pending_rows_def)
    next
      case Nil2: Nil
      with d Nil have b: "decode_blocks ?dz ?p ?n (rs_stripeBlocks rs) = Inr []"
        and "decode_stripes ?dz ?p ?n ?f (rs_stripeList rs) = Inr (r # R)"
        by simp_all
      from ReadNextStripeRow_next [OF this(2)] obtain rows rest stripes1 B2 S2 where
        n: "ReadNextStripeRow ?dz ?p ?n ?f (rs_stripeList rs) = Inr (Some (r, rows, rest, stripes1))"
           "decode_blocks ?dz ?p ?n rest = Inr B2"
           "decode_stripes ?dz ?p ?n ?f stripes1 = Inr S2" "R = rows @ B2 @ S2"
        by blast
      with Nil b show ?thesis
        by (simp add: CStoreReadNextRow_def Let_def pending_rows_def ReadNextBlockRow_done)
    qed
  qed
qed

lemma seqscan_rows_pending:
  assumes "cs_readState scan = Some rs" and "pending_rows s rs = Inr R" and "length R < fuel"
  shows "seqscan_rows fuel scan slot s = Some (Inr R)"
  using assms
proof (induction R arbitrary: fuel scan slot rs)
  case Nil
  then obtain k where k: "fuel = Suc k" by (cases fuel) auto
  from CStoreReadNextRow_done [OF Nil.prems(2)] obtain rs1 where
    "CStoreReadNextRow rs s = (Inr (None, rs1), s)" by blast
  then show ?case
    using Nil.prems(1) by (simp add: k cstore_getnextslot_def)
next
  case (Cons r R)
  then obtain k where k: "fuel = Suc k" "length R < k" by (cases fuel) auto
  from CStoreReadNextRow_next [OF Cons.prems(2)] obtain rs1 where
    n: "CStoreReadNextRow rs s = (Inr (Some r, rs1), s)" "pending_rows s rs1 = Inr R" by blast
  define scan1 where "scan1 = scan\<lparr>cs_readState := Some rs1\<rparr>"
  define slot1 where "slot1 = ExecStoreVirtualTuple ((ExecClearTuple slot)\<lparr>tts_values := fst r, tts_isnull := snd r\<rparr>)"
  have g: "cstore_getnextslot scan ForwardScanDirection slot s = (Inr (True, scan1, slot1), s)"
    using Cons.prems(1) n(1)
    by (cases r) (simp add: cstore_getnextslot_def Let_def scan1_def slot1_def)
  have row: "(tts_values slot1, tts_isnull slot1) = r"
    by (simp add: slot1_def ExecStoreVirtualTuple_def ExecClearTuple_def)
  have "cs_readState scan1 = Some rs1" by (simp add: scan1_def)
  from Cons.IH [OF this n(2) k(2), of slot1]
  show ?case
    using g row by (simp add: k(1))
qed

lemma beginscan_pending:
  assumes "stored_inv dz (RelationColumnList rel) rel s R"
  shows "\<exists>scan rs. cstore_beginscan rel snapshot nkeys key parallel_scan flags s = (Inr scan, s)
           \<and> cs_readState scan = Some rs \<and> pending_rows s rs = Inr R"
  using assms
  by (auto simp: stored_inv_def beginscan_eq CStoreBeginRead_def pending_rows_def)

subsection \<open>Round trip\<close>

lemma slot_fits_lengths:
  "slot_fits tupdesc slot \<Longrightarrow>
   length (tts_values slot) = natts tupdesc \<and> length (tts_isnull slot) = natts tupdesc"
  by (simp add: slot_fits_def)

lemma slot_fits_dropped:
  "slot_fits tupdesc slot \<Longrightarrow> c < natts tupdesc \<Longrightarrow> attisdropped (attrs tupdesc ! c) \<Longrightarrow> tts_isnull slot ! c"
  by (simp add: slot_fits_def list_all_iff)

lemma stored_slot_content:
  assumes "natts (rd_att rel) \<le> 32767" and "slot_fits (rd_att rel) slot"
  shows "row_content (toast_store s)
           (stored_row (RelationColumnList rel) (natts (rd_att rel)) (slot_row (prepared_slot s slot)))
         = row_content (toast_store s) (slot_row slot)"
proof -
  let ?n = "natts (rd_att rel)"
  have len: "length (tts_values slot) = ?n" "length (tts_isnull slot) = ?n"
    using slot_fits_lengths [OF assms(2)] by simp_all
  then have eq: "length (tts_values slot) = length (tts_isnull slot)" by simp
  have l1: "length (tts_values (prepared_slot s slot)) = ?n"
    using prepared_slot_length [OF eq] len by simp
  have l2: "length (tts_isnull (prepared_slot s slot)) = ?n"
    using prepared_slot_isnull [OF eq] len by simp
  have nulls: "\<And>c. c < ?n \<Longrightarrow> \<not> column_requested (RelationColumnList rel) c
                 \<Longrightarrow> tts_isnull (prepared_slot s slot) ! c"
    using column_requested_RelationColumnList [OF assms(1)] slot_fits_dropped [OF assms(2)]
    by (simp add: prepared_slot_isnull [OF eq])
  have "row_content (toast_store s)
          (stored_row (RelationColumnList rel) ?n
             (tts_values (prepared_slot s slot), tts_isnull (prepared_slot s slot)))
        = row_content (toast_store s) (tts_values (prepared_slot s slot), tts_isnull (prepared_slot s slot))"
    using l1 l2 nulls by (rule stored_row_content)
  then show ?thesis
    using prepared_slot_content [OF eq, of s] by (simp add: slot_row_def)
qed

text \<open>
  C1. Let no write state be open, let the relation have a catalog entry with no stripe and
  a data region, let the compression library be lossless, and let every slot fit the
  relation's descriptor. Insert the slots, one \<^verbatim>\<open>cstore_tuple_insert\<close> per slot or all of
  them with one \<^verbatim>\<open>cstore_multi_insert\<close>, and end the write. Then the inserts and the flush
  succeed, \<^verbatim>\<open>cstore_beginscan\<close> succeeds, and repeated \<^verbatim>\<open>cstore_getnextslot\<close> (more calls
  allowed than there are slots) ends and yields as many rows as slots were inserted, in
  the order of the inserts, each with the null flags and the values of its slot (an
  externally stored datum read back as the value it stands for).
\<close>

theorem insert_flush_scan_roundtrip:
  assumes "CStoreWriteState s = None"
      and "catalog s (relNode (rd_node rel)) = Some metadata" and "stripeMetadataList metadata = []"
      and "storage s (relNode (rd_node rel)) = Some dataFile"
      and "codec_ok (cstore_compression s) (pglz_compress s) (pglz_decompress s)"
      and "natts (rd_att rel) \<le> 32767"
      and "\<forall>slot \<in> set slots. slot_fits (rd_att rel) slot"
      and "inserted = tuple_insert_each a rel slots cid options bistate s
         \<or> inserted = cstore_multi_insert a rel slots (int (length slots)) cid options bistate s"
      and "length slots < fuel"
  shows "\<exists>slots1 s1 s2 scan rows.
           inserted = (Inr slots1, s1)
         \<and> cstore_free_write_state s1 = (Inr (), s2)
         \<and> cstore_beginscan rel snapshot nkeys key parallel_scan flags s2 = (Inr scan, s2)
         \<and> seqscan_rows fuel scan slot0 s2 = Some (Inr rows)
         \<and> map (row_content (toast_store s)) rows =
             map (\<lambda>slot. row_content (toast_store s) (slot_row slot)) slots"
proof -
  let ?p = "RelationColumnList rel"
  let ?n = "natts (rd_att rel)"
  let ?R = "map (\<lambda>slot. stored_row ?p ?n (slot_row (prepared_slot s slot))) slots"
  have lens: "\<And>slot. slot \<in> set slots \<Longrightarrow>
             length (tts_values slot) = ?n \<and> length (tts_isnull slot) = ?n"
    using assms(7) slot_fits_lengths by blast
  from insert_flush_stored [OF assms(1-5) lens assms(8), of ?p] obtain slots1 s1 s2 where
    w: "inserted = (Inr slots1, s1)" "cstore_free_write_state s1 = (Inr (), s2)"
       "stored_inv (pglz_decompress s) ?p rel s2 ?R"
    by blast
  from beginscan_pending [OF w(3), of snapshot nkeys key parallel_scan flags] obtain scan rs where
    b: "cstore_beginscan rel snapshot nkeys key parallel_scan flags s2 = (Inr scan, s2)"
       "cs_readState scan = Some rs" "pending_rows s2 rs = Inr ?R"
    by blast
  have "length ?R < fuel" using assms(9) by simp
  with b(2,3) have r: "seqscan_rows fuel scan slot0 s2 = Some (Inr ?R)"
    by (rule seqscan_rows_pending)
  have "map (row_content (toast_store s)) ?R = map (\<lambda>slot. row_content (toast_store s) (slot_row slot)) slots"
    using assms(6,7) by (simp add: stored_slot_content)
  with w(1,2) b(1) r show ?thesis by blast
qed

theorem insert_flush_scan_roundtrip_witness:
  "\<exists>slots1 s1 s2 scan rows.
      tuple_insert_each True example_rel example_slots 0 0 None example_state = (Inr slots1, s1)
    \<and> cstore_free_write_state s1 = (Inr (), s2)
    \<and> cstore_beginscan example_rel 7 0 0 None 0 s2 = (Inr scan, s2)
    \<and> seqscan_rows 6 scan (example_slot 0 0) s2 = Some (Inr rows)
    \<and> map (row_content (\<lambda>p. p + 100)) rows =
        [[Some 1, None, Some 111], [Some 2, None, Some 112], [Some 3, None, Some 113],
         [Some 4, None, Some 114], [Some 5, None, Some 115]]"
proof -
  have h1: "CStoreWriteState example_state = None"
    by (simp add: example_state_def)
  have h2: "catalog example_state (relNode (rd_node example_rel)) =
              Some \<lparr>blockRowCount = 2, stripeMetadataList = []\<rparr>"
    by (simp add: example_state_def example_rel_def)
  have h3: "stripeMetadataList \<lparr>blockRowCount = 2, stripeMetadataList = []\<rparr> = []"
    by simp
  have h4: "storage example_state (relNode (rd_node example_rel)) = Some []"
    by (simp add: example_state_def example_rel_def)
  have h5: "codec_ok (cstore_compression example_state) (pglz_compress example_state)
              (pglz_decompress example_state)"
    by (simp add: codec_ok_def example_state_def)
  have h6: "natts (rd_att example_rel) \<le> 32767"
    by (simp add: example_natts)
  have h7: "\<forall>slot \<in> set example_slots. slot_fits (rd_att example_rel) slot"
    by (simp add: example_slots_def slot_fits_def example_natts upt_3 example_slot_def)
       (simp add: example_rel_def example_tupdesc_def)
  have h8: "tuple_insert_each True example_rel example_slots 0 0 None example_state
              = tuple_insert_each True example_rel example_slots 0 0 None example_state
          \<or> tuple_insert_each True example_rel example_slots 0 0 None example_state
              = cstore_multi_insert True example_rel example_slots (int (length example_slots)) 0 0 None example_state"
    by simp
  have h9: "length example_slots < 6"
    by (simp add: example_slots_def)
  have t: "toast_store example_state = (\<lambda>p. p + 100)"
    by (simp add: example_state_def)
  have c: "map (\<lambda>slot. row_content (\<lambda>p. p + 100) (slot_row slot)) example_slots =
        [[Some 1, None, Some 111], [Some 2, None, Some 112], [Some 3, None, Some 113],
         [Some 4, None, Some 114], [Some 5, None, Some 115]]"
    by (simp add: example_slots_def example_slot_def row_content_def slot_row_def)
  from insert_flush_scan_roundtrip [OF h1 h2 h3 h4 h5 h6 h7 h8 h9, of 7 0 0 None 0 "example_slot 0 0"]
  show ?thesis
    by (simp only: t c)
qed

end
